theory Spec2Isabelle
  imports Main "HOL-Library.Product_Lexorder" "HOL-Library.Multiset"
begin

section \<open>fetch_tech_news.py: data model\<close>

text \<open>
  Exceptions of class \<open>Exception\<close>, the class the handler of \<open>fetch_feed\<close> names.
  \<open>AttributeError\<close> is what reading a missing attribute of a feed entry raises,
  \<open>ValueError\<close> what the \<open>datetime\<close> constructor raises on a field out of range,
  \<open>OverflowError\<close> what it raises on an integer too large for it and what datetime
  arithmetic raises when the result leaves the calendar, and \<open>OtherException\<close>
  stands for whatever else the feed parser raises
  (network error, timeout, malformed document). Each carries its message.
\<close>

datatype py_exception =
    AttributeError string
  | ValueError string
  | OverflowError string
  | OtherException string

text \<open>\<open>str(e)\<close>, as the f-string of the handler formats it.\<close>

fun exc_str :: "py_exception \<Rightarrow> string" where
  "exc_str (AttributeError m) = m"
| "exc_str (ValueError m) = m"
| "exc_str (OverflowError m) = m"
| "exc_str (OtherException m) = m"

text \<open>
  \<open>time.struct_time\<close>: the nine-field tuple that the feed parser stores under
  \<open>published_parsed\<close> and \<open>updated_parsed\<close>.
\<close>

record struct_time =
  tm_year :: int
  tm_mon :: int
  tm_mday :: int
  tm_hour :: int
  tm_min :: int
  tm_sec :: int
  tm_wday :: int
  tm_yday :: int
  tm_isdst :: int

datatype tzinfo = utc

record datetime =
  year :: int
  month :: int
  day :: int
  hour :: int
  minute :: int
  second :: int
  microsecond :: int
  tzinfo :: "tzinfo option"

text \<open>
  A raw feed entry. An attribute may be missing (\<open>None\<close> here, \<open>hasattr\<close> false in
  the source); a \<open>*_parsed\<close> attribute that is there may still hold Python's
  \<open>None\<close> (\<open>Some None\<close> here), which is falsy.
\<close>

record raw_entry =
  entry_title :: "string option"
  entry_link :: "string option"
  entry_published_parsed :: "struct_time option option"
  entry_updated_parsed :: "struct_time option option"

text \<open>The dictionary \<open>fetch_feed\<close> appends: keys headline, source, date, link.\<close>

record news_entry =
  headline :: string
  source :: string
  date :: "datetime option"
  link :: string

section \<open>The datetime library, as far as the program uses it\<close>

text \<open>Decimal numerals: \<open>str(n)\<close> and the zero-padded fields of \<open>strftime\<close>.\<close>

definition digit_char :: "nat \<Rightarrow> char" where
  "digit_char n = ''0123456789'' ! (n mod 10)"

function str_nat :: "nat \<Rightarrow> string" where
  "str_nat n = (if n < 10 then [digit_char n] else str_nat (n div 10) @ [digit_char n])"
  by pat_completeness auto
termination
  by (relation "measure id") auto

declare str_nat.simps [simp del]

text \<open>A number printed in at least \<open>w\<close> columns with leading zeros, as \<open>%02d\<close> does.\<close>

definition zero_pad :: "nat \<Rightarrow> nat \<Rightarrow> string" where
  "zero_pad w n = replicate (w - length (str_nat n)) (CHR ''0'') @ str_nat n"

definition str_int :: "int \<Rightarrow> string" where
  "str_int i = (if i < 0 then ''-'' @ str_nat (nat (- i)) else str_nat (nat i))"

definition is_leap :: "int \<Rightarrow> bool" where
  "is_leap y = (y mod 4 = 0 \<and> (y mod 100 \<noteq> 0 \<or> y mod 400 = 0))"

definition days_in_month :: "int \<Rightarrow> int \<Rightarrow> int" where
  "days_in_month y m =
     (if m = 2 then (if is_leap y then 29 else 28)
      else if m = 4 \<or> m = 6 \<or> m = 9 \<or> m = 11 then 30 else 31)"

text \<open>
  An argument of the constructor is first converted to a C \<open>int\<close>; a Python integer
  that does not fit raises \<open>OverflowError\<close> (the C \<open>long\<close> has 64 bits, the
  \<open>int\<close> 32).
\<close>

definition as_c_int :: "int \<Rightarrow> py_exception option" where
  "as_c_int i =
     (if i > 9223372036854775807 \<or> i < - 9223372036854775808
        then Some (OverflowError ''Python int too large to convert to C long'')
      else if i > 2147483647
        then Some (OverflowError ''signed integer is greater than maximum'')
      else if i < - 2147483648
        then Some (OverflowError ''signed integer is less than minimum'')
      else None)"

fun first_overflow :: "int list \<Rightarrow> py_exception option" where
  "first_overflow [] = None"
| "first_overflow (i # rest) =
     (case as_c_int i of Some e \<Rightarrow> Some e | None \<Rightarrow> first_overflow rest)"

text \<open>
  The constructor \<open>datetime(y, m, d, hh, mm, ss, tzinfo=tz)\<close>: once the arguments are
  converted it checks the date fields, then the time fields, and raises \<open>ValueError\<close>
  at the first one out of range. The microsecond is the default 0.
\<close>

definition datetime_new ::
  "int \<Rightarrow> int \<Rightarrow> int \<Rightarrow> int \<Rightarrow> int \<Rightarrow> int \<Rightarrow> tzinfo option \<Rightarrow> py_exception + datetime" where
  "datetime_new y m d hh mm ss tz =
     (case first_overflow [y, m, d, hh, mm, ss] of
        Some e \<Rightarrow> Inl e
      | None \<Rightarrow>
        (if \<not> (1 \<le> y \<and> y \<le> 9999)
           then Inl (ValueError (''year '' @ str_int y @ '' is out of range''))
         else if \<not> (1 \<le> m \<and> m \<le> 12) then Inl (ValueError ''month must be in 1..12'')
         else if \<not> (1 \<le> d \<and> d \<le> days_in_month y m)
           then Inl (ValueError ''day is out of range for month'')
         else if \<not> (0 \<le> hh \<and> hh \<le> 23) then Inl (ValueError ''hour must be in 0..23'')
         else if \<not> (0 \<le> mm \<and> mm \<le> 59) then Inl (ValueError ''minute must be in 0..59'')
         else if \<not> (0 \<le> ss \<and> ss \<le> 59) then Inl (ValueError ''second must be in 0..59'')
         else Inr \<lparr>year = y, month = m, day = d, hour = hh, minute = mm, second = ss,
                   microsecond = 0, tzinfo = tz\<rparr>))"

text \<open>The values a \<open>datetime\<close> object can hold.\<close>

definition valid_datetime :: "datetime \<Rightarrow> bool" where
  "valid_datetime t =
     (1 \<le> year t \<and> year t \<le> 9999 \<and> 1 \<le> month t \<and> month t \<le> 12 \<and>
      1 \<le> day t \<and> day t \<le> days_in_month (year t) (month t) \<and>
      0 \<le> hour t \<and> hour t \<le> 23 \<and> 0 \<le> minute t \<and> minute t \<le> 59 \<and>
      0 \<le> second t \<and> second t \<le> 59 \<and> 0 \<le> microsecond t \<and> microsecond t \<le> 999999)"

text \<open>
  Two aware datetimes with the same \<open>tzinfo\<close> compare by their fields, from the
  year down to the microsecond; every datetime the program compares carries \<open>utc\<close>.
\<close>

type_synonym dt_key = "int \<times> int \<times> int \<times> int \<times> int \<times> int \<times> int"

definition dt_key :: "datetime \<Rightarrow> dt_key" where
  "dt_key t = (year t, month t, day t, hour t, minute t, second t, microsecond t)"

definition dt_ge :: "datetime \<Rightarrow> datetime \<Rightarrow> bool" where
  "dt_ge a b = (dt_key b \<le> dt_key a)"

text \<open>\<open>datetime.min\<close> is the naive 0001-01-01 00:00:00; \<open>replace\<close> sets its zone.\<close>

definition datetime_min :: datetime where
  "datetime_min = \<lparr>year = 1, month = 1, day = 1, hour = 0, minute = 0, second = 0,
                    microsecond = 0, tzinfo = None\<rparr>"

definition replace_tzinfo :: "datetime \<Rightarrow> tzinfo \<Rightarrow> datetime" where
  "replace_tzinfo t tz = t\<lparr>tzinfo := Some tz\<rparr>"

text \<open>
  \<open>t - timedelta(hours=24)\<close>. The timedelta is exactly one day, so the result is
  the same time of day on the preceding calendar date; when there is none
  (0001-01-01) the subtraction raises \<open>OverflowError\<close>.
\<close>

definition sub_timedelta_24h :: "datetime \<Rightarrow> py_exception + datetime" where
  "sub_timedelta_24h t =
     (if 1 < day t then Inr (t\<lparr>day := day t - 1\<rparr>)
      else if 1 < month t
        then Inr (t\<lparr>month := month t - 1, day := days_in_month (year t) (month t - 1)\<rparr>)
      else if 1 < year t then Inr (t\<lparr>year := year t - 1, month := 12, day := 31\<rparr>)
      else Inl (OverflowError ''date value out of range''))"

text \<open>
  \<open>toordinal\<close>: the number of the date in the proleptic Gregorian calendar, where
  0001-01-01 is day 1. Datetime arithmetic is defined on this number.
\<close>

definition days_before_year :: "int \<Rightarrow> int" where
  "days_before_year y = (y - 1) * 365 + (y - 1) div 4 - (y - 1) div 100 + (y - 1) div 400"

definition days_before_month :: "int \<Rightarrow> int \<Rightarrow> int" where
  "days_before_month y m = sum_list (map (days_in_month y) [1..m - 1])"

definition toordinal :: "datetime \<Rightarrow> int" where
  "toordinal t = days_before_year (year t) + days_before_month (year t) (month t) + day t"

text \<open>
  \<open>t.strftime('%Y-%m-%d %H:%M UTC')\<close>: the year as the C library prints it, in as
  many digits as it has and without leading zeros, the month, day, hour and minute in
  two columns each.
\<close>

definition strftime :: "datetime \<Rightarrow> string" where
  "strftime t =
     str_nat (nat (year t)) @ ''-'' @ zero_pad 2 (nat (month t)) @ ''-'' @
     zero_pad 2 (nat (day t)) @ '' '' @ zero_pad 2 (nat (hour t)) @ '':'' @
     zero_pad 2 (nat (minute t)) @ '' UTC''"

text \<open>The number a string of decimal digits stands for; it reads the printed fields back.\<close>

definition digit_value :: "char \<Rightarrow> nat" where
  "digit_value c = of_char c - 48"

definition decimal_value :: "string \<Rightarrow> nat" where
  "decimal_value s = foldl (\<lambda>a c. 10 * a + digit_value c) 0 s"

section \<open>fetch_feed\<close>

text \<open>\<open>datetime(*t[:6], tzinfo=timezone.utc)\<close>: the first six fields of the tuple.\<close>

definition datetime_of_struct :: "struct_time \<Rightarrow> py_exception + datetime" where
  "datetime_of_struct t =
     datetime_new (tm_year t) (tm_mon t) (tm_mday t) (tm_hour t) (tm_min t) (tm_sec t) (Some utc)"

text \<open>\<open>hasattr(entry, a) and entry.a\<close>: the attribute is there and truthy.\<close>

fun has_truthy :: "struct_time option option \<Rightarrow> bool" where
  "has_truthy (Some (Some t)) = True"
| "has_truthy _ = False"

text \<open>Lines 14 to 18: the publication date of one entry.\<close>

definition get_pub_date :: "raw_entry \<Rightarrow> py_exception + datetime option" where
  "get_pub_date entry =
     (case entry_published_parsed entry of
        Some (Some t) \<Rightarrow> map_sum id Some (datetime_of_struct t)
      | _ \<Rightarrow>
        (case entry_updated_parsed entry of
           Some (Some t) \<Rightarrow> map_sum id Some (datetime_of_struct t)
         | _ \<Rightarrow> Inr None))"

text \<open>
  Lines 13 to 25, the body of the loop for one entry: the date first, then the
  dictionary, whose first value \<open>entry.title\<close> raises \<open>AttributeError\<close> when the
  entry has no title; the link is read only when it is there.
\<close>

definition normalize_entry :: "string \<Rightarrow> raw_entry \<Rightarrow> py_exception + news_entry" where
  "normalize_entry source_name entry =
     (case get_pub_date entry of
        Inl e \<Rightarrow> Inl e
      | Inr pub_date \<Rightarrow>
        (case entry_title entry of
           None \<Rightarrow>
             Inl (AttributeError (''object has no attribute '' @ [CHR 0x27] @ ''title'' @ [CHR 0x27]))
         | Some t \<Rightarrow>
           Inr \<lparr>headline = t, source = source_name, date = pub_date,
                link = (case entry_link entry of Some l \<Rightarrow> l | None \<Rightarrow> [])\<rparr>))"

text \<open>The \<open>for\<close> loop of lines 12 to 25 over the slice, appending to \<open>entries\<close>.\<close>

fun fetch_loop :: "string \<Rightarrow> raw_entry list \<Rightarrow> news_entry list \<Rightarrow> py_exception + news_entry list" where
  "fetch_loop source_name [] entries = Inr entries"
| "fetch_loop source_name (entry # rest) entries =
     (case normalize_entry source_name entry of
        Inl e \<Rightarrow> Inl e
      | Inr r \<Rightarrow> fetch_loop source_name rest (entries @ [r]))"

text \<open>
  The \<open>try\<close> block. The feed parser is a parameter: \<open>parse url\<close> is what
  \<open>feedparser.parse(url)\<close> does, raising or returning the feed's entries.
\<close>

type_synonym parser = "string \<Rightarrow> py_exception + raw_entry list"

definition fetch_feed_try :: "parser \<Rightarrow> string \<Rightarrow> string \<Rightarrow> py_exception + news_entry list" where
  "fetch_feed_try parse url source_name =
     (case parse url of
        Inl e \<Rightarrow> Inl e
      | Inr feed_entries \<Rightarrow> fetch_loop source_name (take 5 feed_entries) [])"

text \<open>
  \<open>fetch_feed\<close>: the returned list and the lines printed. The handler prints one
  line and returns the empty list.
\<close>

definition fetch_feed :: "parser \<Rightarrow> string \<Rightarrow> string \<Rightarrow> news_entry list \<times> string list" where
  "fetch_feed parse url source_name =
     (case fetch_feed_try parse url source_name of
        Inr entries \<Rightarrow> (entries, [])
      | Inl e \<Rightarrow> ([], [''Error fetching '' @ source_name @ '': '' @ exc_str e]))"

section \<open>main\<close>

definition feeds :: "(string \<times> string) list" where
  "feeds =
     [(''https://techcrunch.com/feed/'', ''TechCrunch''),
      (''https://www.theverge.com/rss/index.xml'', ''The Verge''),
      (''https://www.wired.com/feed/rss'', ''Wired''),
      (''https://arstechnica.com/feed/'', ''Ars Technica''),
      (''https://feeds.bbci.co.uk/news/technology/rss.xml'', ''BBC Tech'')]"

text \<open>Line 48: the test an entry passes to be appended to \<open>all_entries\<close>.\<close>

definition is_recent :: "datetime \<Rightarrow> news_entry \<Rightarrow> bool" where
  "is_recent cutoff_time entry =
     (case date entry of None \<Rightarrow> True | Some d \<Rightarrow> dt_ge d cutoff_time)"

text \<open>Lines 44 to 49: the loop over the feeds, with \<open>all_entries\<close> and the output so far.\<close>

fun collect :: "parser \<Rightarrow> datetime \<Rightarrow> (string \<times> string) list \<Rightarrow> news_entry list \<Rightarrow> string list
                \<Rightarrow> news_entry list \<times> string list" where
  "collect parse cutoff_time [] all_entries out = (all_entries, out)"
| "collect parse cutoff_time ((url, src) # rest) all_entries out =
     (case fetch_feed parse url src of
        (entries, printed) \<Rightarrow>
          collect parse cutoff_time rest
            (all_entries @ filter (is_recent cutoff_time) entries) (out @ printed))"

text \<open>Line 52: the sort key, \<open>x['date'] or datetime.min.replace(tzinfo=timezone.utc)\<close>.\<close>

definition sort_date :: "news_entry \<Rightarrow> datetime" where
  "sort_date x = (case date x of Some d \<Rightarrow> d | None \<Rightarrow> replace_tzinfo datetime_min utc)"

definition entry_key :: "news_entry \<Rightarrow> dt_key" where
  "entry_key x = dt_key (sort_date x)"

text \<open>
  \<open>list.sort(key=k, reverse=True)\<close>: the list is reversed, sorted stably in
  ascending order of the key, and reversed again, so that entries of equal key
  keep their order.
\<close>

definition sort_reverse :: "('a \<Rightarrow> 'k::linorder) \<Rightarrow> 'a list \<Rightarrow> 'a list" where
  "sort_reverse k xs = rev (sort_key k (rev xs))"

definition top_10 :: "news_entry list \<Rightarrow> news_entry list" where
  "top_10 all_entries = take 10 (sort_reverse entry_key all_entries)"

text \<open>Lines 57 to 65: the report, one string for each call of \<open>print\<close>.\<close>

definition date_str :: "news_entry \<Rightarrow> string" where
  "date_str item = (case date item of Some d \<Rightarrow> strftime d | None \<Rightarrow> ''Unknown'')"

definition item_lines :: "nat \<times> news_entry \<Rightarrow> string list" where
  "item_lines p =
     (case p of (i, item) \<Rightarrow>
        [str_nat i @ ''. '' @ headline item,
         ''   Source: '' @ source item,
         ''   Date: '' @ date_str item,
         ''''])"

definition report :: "news_entry list \<Rightarrow> string list" where
  "report items =
     [''Top '' @ str_nat (length items) @ '' Technology News Headlines'' @ [CHR 0x0A],
      replicate 80 (CHR ''='')]
     @ concat (map item_lines (zip [1 ..< Suc (length items)] items))"

text \<open>
  \<open>main\<close>, given the feed parser and the clock reading \<open>datetime.now(timezone.utc)\<close>:
  the returned list and everything printed.
\<close>

definition main :: "parser \<Rightarrow> datetime \<Rightarrow> py_exception + (news_entry list \<times> string list)" where
  "main parse now =
     (case sub_timedelta_24h now of
        Inl e \<Rightarrow> Inl e
      | Inr cutoff_time \<Rightarrow>
        (case collect parse cutoff_time feeds [] [] of
           (all_entries, printed) \<Rightarrow>
             Inr (top_10 all_entries, printed @ report (top_10 all_entries))))"

section \<open>Sample feeds\<close>

definition t_morning :: struct_time where
  "t_morning = \<lparr>tm_year = 2024, tm_mon = 3, tm_mday = 15, tm_hour = 10, tm_min = 30,
                 tm_sec = 0, tm_wday = 4, tm_yday = 75, tm_isdst = 0\<rparr>"

definition t_evening :: struct_time where
  "t_evening = \<lparr>tm_year = 2024, tm_mon = 3, tm_mday = 15, tm_hour = 18, tm_min = 5,
                 tm_sec = 42, tm_wday = 4, tm_yday = 75, tm_isdst = 0\<rparr>"

definition raw_dated :: raw_entry where
  "raw_dated = \<lparr>entry_title = Some ''Chip launch'', entry_link = Some ''https://example.org/chip'',
                 entry_published_parsed = Some (Some t_morning),
                 entry_updated_parsed = Some (Some t_evening)\<rparr>"

definition raw_updated_only :: raw_entry where
  "raw_updated_only = \<lparr>entry_title = Some ''Patch notes'', entry_link = None,
                        entry_published_parsed = None,
                        entry_updated_parsed = Some (Some t_evening)\<rparr>"

definition raw_undated :: raw_entry where
  "raw_undated = \<lparr>entry_title = Some ''Rumour'', entry_link = Some ''https://example.org/r'',
                   entry_published_parsed = Some None, entry_updated_parsed = None\<rparr>"

definition raw_untitled :: raw_entry where
  "raw_untitled = \<lparr>entry_title = None, entry_link = Some ''https://example.org/u'',
                    entry_published_parsed = Some (Some t_morning),
                    entry_updated_parsed = None\<rparr>"

definition six_entries :: "raw_entry list" where
  "six_entries = [raw_dated, raw_undated, raw_updated_only, raw_dated, raw_undated, raw_untitled]"

definition t_stale :: struct_time where
  "t_stale = \<lparr>tm_year = 2024, tm_mon = 3, tm_mday = 14, tm_hour = 23, tm_min = 0,
               tm_sec = 0, tm_wday = 3, tm_yday = 74, tm_isdst = 0\<rparr>"

definition raw_stale :: raw_entry where
  "raw_stale = \<lparr>entry_title = Some ''Old story'', entry_link = Some ''https://example.org/o'',
                 entry_published_parsed = Some (Some t_stale), entry_updated_parsed = None\<rparr>"

definition raw_same_time :: raw_entry where
  "raw_same_time = \<lparr>entry_title = Some ''Chip review'', entry_link = None,
                     entry_published_parsed = Some (Some t_morning),
                     entry_updated_parsed = None\<rparr>"

text \<open>A run on 2024-03-16 at 09:00 UTC in which the third feed times out.\<close>

definition sample_now :: datetime where
  "sample_now = \<lparr>year = 2024, month = 3, day = 16, hour = 9, minute = 0, second = 0,
                  microsecond = 250000, tzinfo = Some utc\<rparr>"

definition sample_cutoff :: datetime where
  "sample_cutoff = \<lparr>year = 2024, month = 3, day = 15, hour = 9, minute = 0, second = 0,
                     microsecond = 250000, tzinfo = Some utc\<rparr>"

definition sample_parse :: parser where
  "sample_parse u =
     (if u = ''https://techcrunch.com/feed/'' then Inr [raw_dated, raw_stale, raw_undated]
      else if u = ''https://www.wired.com/feed/rss'' then Inl (OtherException ''timed out'')
      else if u = ''https://arstechnica.com/feed/'' then Inr [raw_same_time, raw_updated_only]
      else Inr [])"

text \<open>What the first feed of the sample run normalizes to.\<close>

definition launch_entry :: news_entry where
  "launch_entry = \<lparr>headline = ''Chip launch'', source = ''TechCrunch'',
     date = Some \<lparr>year = 2024, month = 3, day = 15, hour = 10, minute = 30, second = 0,
                  microsecond = 0, tzinfo = Some utc\<rparr>,
     link = ''https://example.org/chip''\<rparr>"

definition stale_entry :: news_entry where
  "stale_entry = \<lparr>headline = ''Old story'', source = ''TechCrunch'',
     date = Some \<lparr>year = 2024, month = 3, day = 14, hour = 23, minute = 0, second = 0,
                  microsecond = 0, tzinfo = Some utc\<rparr>,
     link = ''https://example.org/o''\<rparr>"

definition undated_entry :: news_entry where
  "undated_entry = \<lparr>headline = ''Rumour'', source = ''TechCrunch'', date = None,
     link = ''https://example.org/r''\<rparr>"

text \<open>What the fourth feed normalizes to, and the list the sample run returns.\<close>

definition review_entry :: news_entry where
  "review_entry = \<lparr>headline = ''Chip review'', source = ''Ars Technica'',
     date = Some \<lparr>year = 2024, month = 3, day = 15, hour = 10, minute = 30, second = 0,
                  microsecond = 0, tzinfo = Some utc\<rparr>,
     link = []\<rparr>"

definition patch_entry :: news_entry where
  "patch_entry = \<lparr>headline = ''Patch notes'', source = ''Ars Technica'',
     date = Some \<lparr>year = 2024, month = 3, day = 15, hour = 18, minute = 5, second = 42,
                  microsecond = 0, tzinfo = Some utc\<rparr>,
     link = []\<rparr>"

definition sample_items :: "news_entry list" where
  "sample_items = [patch_entry, launch_entry, review_entry, undated_entry]"




section \<open>Properties of fetch_feed\<close>

lemmas sample_defs = t_morning_def t_evening_def t_stale_def raw_dated_def
  raw_updated_only_def raw_undated_def raw_untitled_def raw_stale_def raw_same_time_def

lemmas norm_defs = normalize_entry_def get_pub_date_def datetime_of_struct_def
  datetime_new_def as_c_int_def days_in_month_def is_leap_def

lemmas fetch_defs = fetch_feed_def fetch_feed_try_def

text \<open>The loop returns a list exactly when every entry of the slice normalizes.\<close>

lemma fetch_loop_Inr:
  "fetch_loop s es acc = Inr rs \<longleftrightarrow>
     (\<exists>ns. map (normalize_entry s) es = map Inr ns \<and> rs = acc @ ns)"
proof (induction es arbitrary: acc)
  case Nil
  then show ?case by auto
next
  case (Cons e es)
  show ?case
  proof (cases "normalize_entry s e")
    case (Inl x)
    then show ?thesis by (auto simp: map_eq_Cons_conv)
  next
    case (Inr r)
    then show ?thesis by (auto simp: Cons.IH map_eq_Cons_conv)
  qed
qed

lemma fetch_loop_Inl:
  "(\<exists>x. fetch_loop s es acc = Inl x) \<longleftrightarrow> (\<exists>e\<in>set es. isl (normalize_entry s e))"
proof (induction es arbitrary: acc)
  case Nil
  then show ?case by simp
next
  case (Cons e es)
  show ?case
    by (cases "normalize_entry s e") (auto simp: Cons.IH)
qed

lemma fetch_feed_cases:
  "fetch_feed parse url s = (rs, out) \<Longrightarrow>
     (\<exists>x. fetch_feed_try parse url s = Inl x \<and> rs = [] \<and>
          out = [''Error fetching '' @ s @ '': '' @ exc_str x])
   \<or> (fetch_feed_try parse url s = Inr rs \<and> out = [])"
  by (auto simp: fetch_feed_def split: sum.splits)

lemma fetch_feed_try_Inr:
  "fetch_feed_try parse url s = Inr rs \<longleftrightarrow>
     (\<exists>es. parse url = Inr es \<and> map (normalize_entry s) (take 5 es) = map Inr rs)"
  by (auto simp: fetch_feed_try_def fetch_loop_Inr split: sum.splits)

lemma normalize_entry_source: "normalize_entry s e = Inr r \<Longrightarrow> source r = s"
  by (auto simp: normalize_entry_def split: sum.splits option.splits)

lemma normalize_entry_untitled: "entry_title e = None \<Longrightarrow> isl (normalize_entry s e)"
  by (simp add: normalize_entry_def split: sum.splits)

lemma fetch_feed_members:
  assumes "r \<in> set (fst (fetch_feed parse url s))"
  shows "\<exists>es e. parse url = Inr es \<and> e \<in> set (take 5 es) \<and> normalize_entry s e = Inr r"
proof -
  obtain rs out where f: "fetch_feed parse url s = (rs, out)"
    by (cases "fetch_feed parse url s")
  with assms have r: "r \<in> set rs" by simp
  from fetch_feed_cases[OF f] r have "fetch_feed_try parse url s = Inr rs" by auto
  then obtain es where es: "parse url = Inr es"
      "map (normalize_entry s) (take 5 es) = map Inr rs"
    by (auto simp: fetch_feed_try_Inr)
  from r have "Inr r \<in> set (map Inr rs :: (py_exception + news_entry) list)" by simp
  with es(2) have "Inr r \<in> set (map (normalize_entry s) (take 5 es))" by simp
  then obtain e where "e \<in> set (take 5 es)" "normalize_entry s e = Inr r" by auto
  with es(1) show ?thesis by blast
qed

lemma fetch_feed_source: "r \<in> set (fst (fetch_feed parse url s)) \<Longrightarrow> source r = s"
  using fetch_feed_members normalize_entry_source by blast

lemma fetch_feed_length: "length (fst (fetch_feed parse url s)) \<le> 5"
proof (cases "fetch_feed_try parse url s")
  case (Inl x)
  then show ?thesis by (simp add: fetch_feed_def)
next
  case (Inr rs)
  then obtain es where "map (normalize_entry s) (take 5 es) = map Inr rs"
    by (auto simp: fetch_feed_try_Inr)
  then have "length (take 5 es) = length rs" by (metis length_map)
  with Inr show ?thesis by (simp add: fetch_feed_def)
qed

text \<open>
  C7. Whatever the parser does, \<open>fetch_feed\<close> returns at most five entries; when the
  parser returns a feed, the call behaves exactly as on the feed cut to its first five
  entries, so nothing past the fifth entry has any influence; and every entry returned
  is the normalized form of one of the first five parsed entries.
\<close>

theorem fetch_feed_first_five:
  "length (fst (fetch_feed parse url s)) \<le> 5 \<and>
   (\<forall>es. parse url = Inr es \<longrightarrow>
      fetch_feed parse url s = fetch_feed (\<lambda>u. Inr (take 5 es)) url s) \<and>
   (\<forall>r\<in>set (fst (fetch_feed parse url s)).
      \<exists>es e. parse url = Inr es \<and> e \<in> set (take 5 es) \<and> normalize_entry s e = Inr r)"
proof (intro conjI allI impI ballI)
  show "length (fst (fetch_feed parse url s)) \<le> 5" by (rule fetch_feed_length)
next
  fix es assume "parse url = Inr es"
  then show "fetch_feed parse url s = fetch_feed (\<lambda>u. Inr (take 5 es)) url s"
    by (simp add: fetch_feed_def fetch_feed_try_def)
next
  fix r assume "r \<in> set (fst (fetch_feed parse url s))"
  then show "\<exists>es e. parse url = Inr es \<and> e \<in> set (take 5 es) \<and> normalize_entry s e = Inr r"
    by (rule fetch_feed_members)
qed

theorem fetch_feed_first_five_witness:
  "length (fst (fetch_feed (\<lambda>u. Inr six_entries) ''u'' ''Wired'')) = 5 \<and>
   fetch_feed (\<lambda>u. Inr six_entries) ''u'' ''Wired''
     = fetch_feed (\<lambda>u. Inr (take 5 six_entries)) ''u'' ''Wired''"
proof -
  have len: "length (fst (fetch_feed (\<lambda>u. Inr six_entries) ''u'' ''Wired'')) = 5"
    by (simp add: six_entries_def sample_defs norm_defs fetch_defs)
  from fetch_feed_first_five [of "\<lambda>u. Inr six_entries" "''u''" "''Wired''"]
  have "fetch_feed (\<lambda>u. Inr six_entries) ''u'' ''Wired''
     = fetch_feed (\<lambda>u. Inr (take 5 six_entries)) ''u'' ''Wired''" by blast
  with len show ?thesis by simp
qed

text \<open>
  C10. \<open>fetch_feed\<close> is all-or-nothing for a feed: when one of the first five entries
  has no title, or its normalization raises for any other reason, the call returns the
  empty list and prints the one diagnostic line, whatever the entries before it gave.
\<close>

theorem fetch_feed_all_or_nothing:
  assumes "parse url = Inr es" and "e \<in> set (take 5 es)"
    and "entry_title e = None \<or> isl (normalize_entry s e)"
  shows "fst (fetch_feed parse url s) = [] \<and>
         (\<exists>x. snd (fetch_feed parse url s) = [''Error fetching '' @ s @ '': '' @ exc_str x])"
proof -
  from assms(3) have "isl (normalize_entry s e)" using normalize_entry_untitled by blast
  with assms(2) have "\<exists>x. fetch_loop s (take 5 es) [] = Inl x"
    unfolding fetch_loop_Inl by blast
  with assms(1) obtain x where "fetch_feed_try parse url s = Inl x"
    by (auto simp: fetch_feed_try_def)
  then show ?thesis by (auto simp: fetch_feed_def)
qed

theorem fetch_feed_all_or_nothing_witness:
  "normalize_entry ''Wired'' raw_dated
     = Inr \<lparr>headline = ''Chip launch'', source = ''Wired'',
            date = Some \<lparr>year = 2024, month = 3, day = 15, hour = 10, minute = 30, second = 0,
                         microsecond = 0, tzinfo = Some utc\<rparr>,
            link = ''https://example.org/chip''\<rparr> \<and>
   entry_title raw_untitled = None \<and>
   fst (fetch_feed (\<lambda>u. Inr [raw_dated, raw_untitled]) ''u'' ''Wired'') = []"
proof -
  have a: "(\<lambda>u::string. Inr [raw_dated, raw_untitled] :: py_exception + raw_entry list) ''u''
             = Inr [raw_dated, raw_untitled]" by simp
  have b: "raw_untitled \<in> set (take 5 [raw_dated, raw_untitled])" by simp
  have c: "entry_title raw_untitled = None \<or> isl (normalize_entry ''Wired'' raw_untitled)"
    by (simp add: raw_untitled_def)
  have d: "normalize_entry ''Wired'' raw_dated
     = Inr \<lparr>headline = ''Chip launch'', source = ''Wired'',
            date = Some \<lparr>year = 2024, month = 3, day = 15, hour = 10, minute = 30, second = 0,
                         microsecond = 0, tzinfo = Some utc\<rparr>,
            link = ''https://example.org/chip''\<rparr>"
    by (simp add: sample_defs norm_defs)
  from fetch_feed_all_or_nothing [OF a b c] d show ?thesis
    by (simp add: raw_untitled_def)
qed

lemma datetime_new_Inr:
  "datetime_new y m d hh mm ss tz = Inr t \<Longrightarrow>
     t = \<lparr>year = y, month = m, day = d, hour = hh, minute = mm, second = ss,
          microsecond = 0, tzinfo = tz\<rparr> \<and> valid_datetime t"
  by (auto simp: datetime_new_def valid_datetime_def split: if_splits option.splits)

lemma datetime_of_struct_Inr:
  "datetime_of_struct t = Inr d \<Longrightarrow>
     d = \<lparr>year = tm_year t, month = tm_mon t, day = tm_mday t, hour = tm_hour t,
          minute = tm_min t, second = tm_sec t, microsecond = 0, tzinfo = Some utc\<rparr> \<and>
     valid_datetime d"
  unfolding datetime_of_struct_def by (rule datetime_new_Inr)

lemma has_truthy_iff: "has_truthy a \<longleftrightarrow> (\<exists>t. a = Some (Some t))"
  by (cases a rule: has_truthy.cases) auto

lemma get_pub_date_published:
  "entry_published_parsed e = Some (Some t) \<Longrightarrow> get_pub_date e = Inr p \<Longrightarrow>
     \<exists>d. p = Some d \<and> datetime_of_struct t = Inr d"
  by (cases "datetime_of_struct t") (auto simp: get_pub_date_def)

lemma get_pub_date_updated:
  "\<not> has_truthy (entry_published_parsed e) \<Longrightarrow> entry_updated_parsed e = Some (Some t) \<Longrightarrow>
   get_pub_date e = Inr p \<Longrightarrow> \<exists>d. p = Some d \<and> datetime_of_struct t = Inr d"
  by (cases "datetime_of_struct t")
     (auto simp: get_pub_date_def has_truthy_iff split: option.splits)

lemma get_pub_date_none:
  "\<not> has_truthy (entry_published_parsed e) \<Longrightarrow> \<not> has_truthy (entry_updated_parsed e) \<Longrightarrow>
   get_pub_date e = Inr None"
  by (auto simp: get_pub_date_def has_truthy_iff split: option.splits)

lemma normalize_entry_Inr:
  "normalize_entry s e = Inr r \<longleftrightarrow>
     (\<exists>p ttl. get_pub_date e = Inr p \<and> entry_title e = Some ttl \<and>
        r = \<lparr>headline = ttl, source = s, date = p,
             link = (case entry_link e of Some l \<Rightarrow> l | None \<Rightarrow> [])\<rparr>)"
  by (auto simp: normalize_entry_def split: sum.splits option.splits)

lemma get_pub_date_Some:
  assumes "get_pub_date e = Inr (Some d)"
  shows "tzinfo d = Some utc \<and> valid_datetime d \<and>
     (has_truthy (entry_published_parsed e) \<or> has_truthy (entry_updated_parsed e))"
proof (cases "has_truthy (entry_published_parsed e)")
  case True
  then obtain t where "entry_published_parsed e = Some (Some t)" by (auto simp: has_truthy_iff)
  from get_pub_date_published[OF this assms] have "datetime_of_struct t = Inr d" by simp
  from datetime_of_struct_Inr[OF this] True show ?thesis by auto
next
  case False
  show ?thesis
  proof (cases "has_truthy (entry_updated_parsed e)")
    case True
    then obtain t where "entry_updated_parsed e = Some (Some t)" by (auto simp: has_truthy_iff)
    from get_pub_date_updated[OF False this assms] have "datetime_of_struct t = Inr d" by simp
    from datetime_of_struct_Inr[OF this] True show ?thesis by auto
  next
    case F2: False
    from get_pub_date_none[OF False F2] assms show ?thesis by simp
  qed
qed

text \<open>
  C6. For every entry that is normalized, the date is taken from \<open>published_parsed\<close>
  when that attribute is there and not empty; otherwise from \<open>updated_parsed\<close> when
  that one is there and not empty; otherwise there is no date. A date that is extracted
  holds the first six fields of the parsed time, is a proper calendar value and carries
  the zone UTC. So an entry with only an updated time gets that time as its date.
\<close>

theorem pub_date_precedence:
  assumes "normalize_entry s e = Inr r"
  shows "(\<forall>t. entry_published_parsed e = Some (Some t) \<longrightarrow>
            date r = Some \<lparr>year = tm_year t, month = tm_mon t, day = tm_mday t, hour = tm_hour t,
                           minute = tm_min t, second = tm_sec t, microsecond = 0,
                           tzinfo = Some utc\<rparr>) \<and>
         (\<forall>t. \<not> has_truthy (entry_published_parsed e) \<and> entry_updated_parsed e = Some (Some t) \<longrightarrow>
            date r = Some \<lparr>year = tm_year t, month = tm_mon t, day = tm_mday t, hour = tm_hour t,
                           minute = tm_min t, second = tm_sec t, microsecond = 0,
                           tzinfo = Some utc\<rparr>) \<and>
         (\<not> has_truthy (entry_published_parsed e) \<and> \<not> has_truthy (entry_updated_parsed e) \<longrightarrow>
            date r = None) \<and>
         (\<forall>d. date r = Some d \<longrightarrow> tzinfo d = Some utc \<and> valid_datetime d)"
proof -
  from assms obtain p where p: "get_pub_date e = Inr p" and d: "date r = p"
    by (auto simp: normalize_entry_Inr)
  show ?thesis
  proof (intro conjI allI impI)
    fix t assume "entry_published_parsed e = Some (Some t)"
    from get_pub_date_published[OF this p] obtain x where "p = Some x" "datetime_of_struct t = Inr x"
      by blast
    with datetime_of_struct_Inr[of t x] d
    show "date r = Some \<lparr>year = tm_year t, month = tm_mon t, day = tm_mday t, hour = tm_hour t,
                           minute = tm_min t, second = tm_sec t, microsecond = 0,
                           tzinfo = Some utc\<rparr>" by simp
  next
    fix t assume "\<not> has_truthy (entry_published_parsed e) \<and> entry_updated_parsed e = Some (Some t)"
    then have a: "\<not> has_truthy (entry_published_parsed e)" and b: "entry_updated_parsed e = Some (Some t)"
      by simp_all
    from get_pub_date_updated[OF a b p] obtain x where "p = Some x" "datetime_of_struct t = Inr x"
      by blast
    with datetime_of_struct_Inr[of t x] d
    show "date r = Some \<lparr>year = tm_year t, month = tm_mon t, day = tm_mday t, hour = tm_hour t,
                           minute = tm_min t, second = tm_sec t, microsecond = 0,
                           tzinfo = Some utc\<rparr>" by simp
  next
    assume "\<not> has_truthy (entry_published_parsed e) \<and> \<not> has_truthy (entry_updated_parsed e)"
    then have "get_pub_date e = Inr None" using get_pub_date_none by blast
    with p d show "date r = None" by simp
  next
    fix x assume "date r = Some x"
    with p d have "get_pub_date e = Inr (Some x)" by simp
    from get_pub_date_Some[OF this] show "tzinfo x = Some utc" by simp
  next
    fix x assume "date r = Some x"
    with p d have "get_pub_date e = Inr (Some x)" by simp
    from get_pub_date_Some[OF this] show "valid_datetime x" by simp
  qed
qed

theorem pub_date_precedence_witness:
  "normalize_entry ''Wired'' raw_updated_only
     = Inr \<lparr>headline = ''Patch notes'', source = ''Wired'',
            date = Some \<lparr>year = 2024, month = 3, day = 15, hour = 18, minute = 5, second = 42,
                         microsecond = 0, tzinfo = Some utc\<rparr>,
            link = []\<rparr> \<and>
   \<not> has_truthy (entry_published_parsed raw_updated_only) \<and>
   entry_updated_parsed raw_updated_only = Some (Some t_evening) \<and>
   date \<lparr>headline = ''Patch notes'', source = ''Wired'',
            date = Some \<lparr>year = 2024, month = 3, day = 15, hour = 18, minute = 5, second = 42,
                         microsecond = 0, tzinfo = Some utc\<rparr>,
            link = []\<rparr>
     = Some \<lparr>year = tm_year t_evening, month = tm_mon t_evening, day = tm_mday t_evening,
             hour = tm_hour t_evening, minute = tm_min t_evening, second = tm_sec t_evening,
             microsecond = 0, tzinfo = Some utc\<rparr>"
proof -
  have n: "normalize_entry ''Wired'' raw_updated_only
     = Inr \<lparr>headline = ''Patch notes'', source = ''Wired'',
            date = Some \<lparr>year = 2024, month = 3, day = 15, hour = 18, minute = 5, second = 42,
                         microsecond = 0, tzinfo = Some utc\<rparr>,
            link = []\<rparr>"
    by (simp add: sample_defs norm_defs)
  have h: "\<not> has_truthy (entry_published_parsed raw_updated_only) \<and>
           entry_updated_parsed raw_updated_only = Some (Some t_evening)"
    by (simp add: raw_updated_only_def)
  from pub_date_precedence [OF n] h n show ?thesis by blast
qed

text \<open>
  C8. Every entry that \<open>fetch_feed\<close> returns carries the display name it was called
  with as its source and is the normalized form of one of the first five parsed entries;
  and whichever raw entry it is the normal form of, its link is that entry's link, or the
  empty string when the raw entry has none, its headline is the raw title, and its date
  is absent exactly when the raw entry has neither a published nor an updated time.
\<close>

theorem fetch_feed_entry_invariant:
  assumes "r \<in> set (fst (fetch_feed parse url s))"
  shows "source r = s \<and>
         (\<exists>es e. parse url = Inr es \<and> e \<in> set (take 5 es) \<and> normalize_entry s e = Inr r) \<and>
         (\<forall>e. normalize_entry s e = Inr r \<longrightarrow>
            (entry_link e = None \<longrightarrow> link r = []) \<and>
            (\<forall>l. entry_link e = Some l \<longrightarrow> link r = l) \<and>
            entry_title e = Some (headline r) \<and>
            (date r = None \<longleftrightarrow>
               \<not> has_truthy (entry_published_parsed e) \<and> \<not> has_truthy (entry_updated_parsed e)))"
proof (intro conjI allI impI)
  show "source r = s" using assms by (rule fetch_feed_source)
  show "\<exists>es e. parse url = Inr es \<and> e \<in> set (take 5 es) \<and> normalize_entry s e = Inr r"
    using assms by (rule fetch_feed_members)
next
  fix e assume n: "normalize_entry s e = Inr r"
  { assume "entry_link e = None" with n show "link r = []" by (auto simp: normalize_entry_Inr) }
  { fix l assume "entry_link e = Some l" with n show "link r = l" by (auto simp: normalize_entry_Inr) }
  from n show "entry_title e = Some (headline r)" by (auto simp: normalize_entry_Inr)
  from n obtain p where p: "get_pub_date e = Inr p" and d: "date r = p"
    by (auto simp: normalize_entry_Inr)
  show "date r = None \<longleftrightarrow>
          \<not> has_truthy (entry_published_parsed e) \<and> \<not> has_truthy (entry_updated_parsed e)"
  proof
    assume "date r = None"
    with p d have pn: "get_pub_date e = Inr None" by simp
    show "\<not> has_truthy (entry_published_parsed e) \<and> \<not> has_truthy (entry_updated_parsed e)"
    proof (intro conjI notI)
      assume "has_truthy (entry_published_parsed e)"
      then obtain t where "entry_published_parsed e = Some (Some t)" by (auto simp: has_truthy_iff)
      from get_pub_date_published[OF this pn] show False by simp
    next
      assume u: "has_truthy (entry_updated_parsed e)"
      show False
      proof (cases "has_truthy (entry_published_parsed e)")
        case True
        then obtain t where "entry_published_parsed e = Some (Some t)" by (auto simp: has_truthy_iff)
        from get_pub_date_published[OF this pn] show False by simp
      next
        case False
        from u obtain t where "entry_updated_parsed e = Some (Some t)" by (auto simp: has_truthy_iff)
        from get_pub_date_updated[OF False this pn] show False by simp
      qed
    qed
  next
    assume "\<not> has_truthy (entry_published_parsed e) \<and> \<not> has_truthy (entry_updated_parsed e)"
    then have "get_pub_date e = Inr None" using get_pub_date_none by blast
    with p d show "date r = None" by simp
  qed
qed

theorem fetch_feed_entry_invariant_witness:
  "\<lparr>headline = ''Patch notes'', source = ''Wired'',
     date = Some \<lparr>year = 2024, month = 3, day = 15, hour = 18, minute = 5, second = 42,
                  microsecond = 0, tzinfo = Some utc\<rparr>,
     link = []\<rparr> \<in> set (fst (fetch_feed (\<lambda>u. Inr [raw_undated, raw_updated_only]) ''u'' ''Wired'')) \<and>
   normalize_entry ''Wired'' raw_updated_only
     = Inr \<lparr>headline = ''Patch notes'', source = ''Wired'',
            date = Some \<lparr>year = 2024, month = 3, day = 15, hour = 18, minute = 5, second = 42,
                         microsecond = 0, tzinfo = Some utc\<rparr>,
            link = []\<rparr> \<and>
   entry_link raw_updated_only = None \<and>
   has_truthy (entry_updated_parsed raw_updated_only) \<and>
   entry_title raw_updated_only = Some ''Patch notes''"
proof -
  let ?r = "\<lparr>headline = ''Patch notes'', source = ''Wired'',
     date = Some \<lparr>year = 2024, month = 3, day = 15, hour = 18, minute = 5, second = 42,
                  microsecond = 0, tzinfo = Some utc\<rparr>,
     link = []\<rparr>"
  have m: "?r \<in> set (fst (fetch_feed (\<lambda>u. Inr [raw_undated, raw_updated_only]) ''u'' ''Wired''))"
    by (simp add: sample_defs norm_defs fetch_defs)
  have n: "normalize_entry ''Wired'' raw_updated_only = Inr ?r"
    by (simp add: sample_defs norm_defs)
  have l: "entry_link raw_updated_only = None" by (simp add: raw_updated_only_def)
  from fetch_feed_entry_invariant [OF m] n
  have "entry_title raw_updated_only = Some (headline ?r) \<and>
        (date ?r = None \<longleftrightarrow>
           \<not> has_truthy (entry_published_parsed raw_updated_only) \<and>
           \<not> has_truthy (entry_updated_parsed raw_updated_only))"
    by blast
  moreover have "\<not> has_truthy (entry_published_parsed raw_updated_only)"
    by (simp add: raw_updated_only_def)
  ultimately have "has_truthy (entry_updated_parsed raw_updated_only) \<and>
     entry_title raw_updated_only = Some ''Patch notes''" by simp
  with m n l show ?thesis by blast
qed

text \<open>
  C2. An entry without a title is not tolerated: reading \<open>entry.title\<close> raises
  \<open>AttributeError\<close>, the handler takes over, and the whole feed yields no entry,
  although a missing link and missing times are each guarded by \<open>hasattr\<close>.
\<close>

theorem fetch_feed_untitled_entry:
  "normalize_entry ''Wired'' raw_untitled
     = Inl (AttributeError (''object has no attribute '' @ [CHR 0x27] @ ''title'' @ [CHR 0x27])) \<and>
   fetch_feed (\<lambda>u. Inr [raw_undated, raw_untitled, raw_updated_only])
       ''https://www.wired.com/feed/rss'' ''Wired''
     = ([], [''Error fetching Wired: object has no attribute '' @ [CHR 0x27] @ ''title'' @ [CHR 0x27]])"
  by (simp add: sample_defs norm_defs fetch_defs)

section \<open>Properties of main\<close>

lemma collect_concat:
  "collect parse c fs acc out =
     (acc @ concat (map (\<lambda>(u, s). filter (is_recent c) (fst (fetch_feed parse u s))) fs),
      out @ concat (map (\<lambda>(u, s). snd (fetch_feed parse u s)) fs))"
proof (induction fs arbitrary: acc out)
  case Nil
  then show ?case by simp
next
  case (Cons f fs)
  obtain u s where f: "f = (u, s)" by (cases f)
  obtain rs pr where r: "fetch_feed parse u s = (rs, pr)" by (cases "fetch_feed parse u s")
  show ?case by (simp add: f r Cons.IH)
qed

lemma collect_members:
  "r \<in> set (fst (collect parse c fs [] [])) \<longleftrightarrow>
     (\<exists>(u, s)\<in>set fs. r \<in> set (fst (fetch_feed parse u s))) \<and> is_recent c r"
  by (auto simp: collect_concat)

lemma collect_printed:
  "l \<in> set (snd (collect parse c fs [] [])) \<longleftrightarrow>
     (\<exists>(u, s)\<in>set fs. l \<in> set (snd (fetch_feed parse u s)))"
  by (auto simp: collect_concat)

lemma concat_map_remove1:
  "f a = [] \<Longrightarrow> concat (map f (remove1 a xs)) = concat (map f xs)"
  by (induction xs) auto

lemma feeds_names_distinct: "(u, s) \<in> set feeds \<Longrightarrow> (u', s) \<in> set feeds \<Longrightarrow> u = u'"
  by (auto simp: feeds_def)

lemma main_Inr:
  "main parse now = Inr (items, out) \<longleftrightarrow>
     (\<exists>c. sub_timedelta_24h now = Inr c \<and>
          items = top_10 (fst (collect parse c feeds [] [])) \<and>
          out = snd (collect parse c feeds [] []) @ report items)"
  by (auto simp: main_def split: sum.splits prod.splits)

lemma set_sort_reverse: "set (sort_reverse k xs) = set xs"
  by (simp add: sort_reverse_def)

lemma set_top_10: "set (top_10 xs) \<subseteq> set xs"
  using set_take_subset[of 10 "sort_reverse entry_key xs"] by (simp add: top_10_def set_sort_reverse)

text \<open>
  C1. When the \<open>try\<close> block of \<open>fetch_feed\<close> raises for one of the configured feeds,
  whether in the parser or while an entry is normalized, the call returns the empty list
  and prints one line holding the source name and the text of the exception. The loop of
  \<open>main\<close> goes on as if that feed were not in the list, none of the collected entries
  carries that source, and whenever the cutoff time can be computed \<open>main\<close> returns
  a report without entries of that source and with the diagnostic line in its output.
\<close>

theorem fetch_failure_isolated:
  assumes "(url, s) \<in> set feeds" and "fetch_feed_try parse url s = Inl x"
  shows "fetch_feed parse url s = ([], [''Error fetching '' @ s @ '': '' @ exc_str x]) \<and>
         (\<forall>c. fst (collect parse c feeds [] [])
                = fst (collect parse c (remove1 (url, s) feeds) [] [])) \<and>
         (\<forall>c. \<forall>r\<in>set (fst (collect parse c feeds [] [])). source r \<noteq> s) \<and>
         (\<forall>now c. sub_timedelta_24h now = Inr c \<longrightarrow>
            (\<exists>items out. main parse now = Inr (items, out) \<and>
               (\<forall>r\<in>set items. source r \<noteq> s) \<and>
               ''Error fetching '' @ s @ '': '' @ exc_str x \<in> set out))"
proof (intro conjI allI impI ballI)
  show ff: "fetch_feed parse url s = ([], [''Error fetching '' @ s @ '': '' @ exc_str x])"
    using assms(2) by (simp add: fetch_feed_def)
  have none: "\<And>c r. r \<in> set (fst (collect parse c feeds [] [])) \<Longrightarrow> source r \<noteq> s"
  proof
    fix c r assume r: "r \<in> set (fst (collect parse c feeds [] []))" and eq: "source r = s"
    from r obtain u' s' where m: "(u', s') \<in> set feeds" "r \<in> set (fst (fetch_feed parse u' s'))"
      by (auto simp: collect_members)
    from fetch_feed_source[OF m(2)] eq have "s' = s" by simp
    with m(1) assms(1) have "u' = url" using feeds_names_distinct by blast
    with m(2) \<open>s' = s\<close> ff show False by simp
  qed
  { fix c
    have "(\<lambda>(u, s). filter (is_recent c) (fst (fetch_feed parse u s))) (url, s) = []"
      using ff by simp
    from concat_map_remove1[of "\<lambda>(u, s). filter (is_recent c) (fst (fetch_feed parse u s))"
        "(url, s)" feeds, OF this]
    show "fst (collect parse c feeds [] []) = fst (collect parse c (remove1 (url, s) feeds) [] [])"
      by (simp add: collect_concat) }
  { fix c r assume "r \<in> set (fst (collect parse c feeds [] []))"
    then show "source r \<noteq> s" by (rule none) }
  { fix now c assume c: "sub_timedelta_24h now = Inr c"
    let ?items = "top_10 (fst (collect parse c feeds [] []))"
    let ?out = "snd (collect parse c feeds [] []) @ report ?items"
    have m: "main parse now = Inr (?items, ?out)" using c by (simp add: main_Inr)
    have a: "\<forall>r\<in>set ?items. source r \<noteq> s" using none set_top_10 by blast
    have "''Error fetching '' @ s @ '': '' @ exc_str x \<in> set (snd (collect parse c feeds [] []))"
      unfolding collect_printed using assms(1) ff by force
    then have b: "''Error fetching '' @ s @ '': '' @ exc_str x \<in> set ?out" by simp
    from m a b
    show "\<exists>items out. main parse now = Inr (items, out) \<and>
               (\<forall>r\<in>set items. source r \<noteq> s) \<and>
               ''Error fetching '' @ s @ '': '' @ exc_str x \<in> set out" by blast }
qed

lemma sub_timedelta_sample: "sub_timedelta_24h sample_now = Inr sample_cutoff"
  by (simp add: sub_timedelta_24h_def sample_now_def sample_cutoff_def)

theorem fetch_failure_isolated_witness:
  "(''https://www.wired.com/feed/rss'', ''Wired'') \<in> set feeds \<and>
   sample_parse ''https://www.wired.com/feed/rss'' = Inl (OtherException ''timed out'') \<and>
   fetch_feed sample_parse ''https://www.wired.com/feed/rss'' ''Wired''
     = ([], [''Error fetching Wired: timed out'']) \<and>
   (\<exists>items out. main sample_parse sample_now = Inr (items, out) \<and>
      (\<forall>r\<in>set items. source r \<noteq> ''Wired'') \<and> ''Error fetching Wired: timed out'' \<in> set out)"
proof -
  have a: "(''https://www.wired.com/feed/rss'', ''Wired'') \<in> set feeds" by (simp add: feeds_def)
  have p: "sample_parse ''https://www.wired.com/feed/rss'' = Inl (OtherException ''timed out'')"
    by (simp add: sample_parse_def)
  then have b: "fetch_feed_try sample_parse ''https://www.wired.com/feed/rss'' ''Wired''
             = Inl (OtherException ''timed out'')"
    by (simp add: fetch_feed_try_def)
  from fetch_failure_isolated [OF a b] sub_timedelta_sample a p show ?thesis by simp
qed

text \<open>Subtracting 24 hours moves a datetime one day back and keeps the time of day.\<close>

lemma div_pred:
  fixes y k :: int
  assumes "0 < k"
  shows "y div k = (y - 1) div k + (if y mod k = 0 then 1 else 0)"
proof (cases "y mod k = 0")
  case True
  from True have "y = k * (y div k)" by auto
  then have "y - 1 = k * (y div k - 1) + (k - 1)" by (simp add: algebra_simps)
  moreover have "0 \<le> k - 1" "k - 1 < k" using assms by simp_all
  ultimately have "(y - 1) div k = y div k - 1" by (rule int_div_pos_eq)
  with True show ?thesis by simp
next
  case False
  have r: "0 \<le> y mod k" "y mod k < k" using assms by simp_all
  with False have "0 \<le> y mod k - 1" "y mod k - 1 < k" by simp_all
  moreover have "y - 1 = k * (y div k) + (y mod k - 1)" by simp
  ultimately have "(y - 1) div k = y div k" by (intro int_div_pos_eq)
  with False show ?thesis by simp
qed

lemma mod_400_100: "(y::int) mod 400 = 0 \<Longrightarrow> y mod 100 = 0"
proof -
  assume "y mod 400 = 0"
  then have "400 dvd y" by (simp only: mod_eq_0_iff_dvd)
  moreover have "(100::int) dvd 400" by simp
  ultimately have "100 dvd y" using dvd_trans by blast
  then show ?thesis by (simp only: mod_eq_0_iff_dvd)
qed

lemma mod_100_4: "(y::int) mod 100 = 0 \<Longrightarrow> y mod 4 = 0"
proof -
  assume "y mod 100 = 0"
  then have "100 dvd y" by (simp only: mod_eq_0_iff_dvd)
  moreover have "(4::int) dvd 100" by simp
  ultimately have "4 dvd y" using dvd_trans by blast
  then show ?thesis by (simp only: mod_eq_0_iff_dvd)
qed

lemma days_before_year_step:
  "days_before_year (y + 1) = days_before_year y + (if is_leap y then 366 else 365)"
proof -
  have a: "y div 4 = (y - 1) div 4 + (if y mod 4 = 0 then 1 else 0)"
    and b: "y div 100 = (y - 1) div 100 + (if y mod 100 = 0 then 1 else 0)"
    and c: "y div 400 = (y - 1) div 400 + (if y mod 400 = 0 then 1 else 0)"
    by (rule div_pred, simp)+
  have e: "days_before_year (y + 1) = y * 365 + y div 4 - y div 100 + y div 400"
    by (simp add: days_before_year_def)
  show ?thesis
  proof (cases "y mod 4 = 0")
    case False
    with mod_100_4[of y] mod_400_100[of y] have "y mod 100 \<noteq> 0 \<and> y mod 400 \<noteq> 0" by auto
    with False show ?thesis
      unfolding e a b c by (simp add: days_before_year_def is_leap_def)
  next
    case m4: True
    show ?thesis
    proof (cases "y mod 100 = 0")
      case False
      with mod_400_100[of y] have "y mod 400 \<noteq> 0" by auto
      with m4 False show ?thesis
        unfolding e a b c by (simp add: days_before_year_def is_leap_def)
    next
      case m100: True
      show ?thesis
      proof (cases "y mod 400 = 0")
        case True
        with m4 m100 show ?thesis
          unfolding e a b c by (simp add: days_before_year_def is_leap_def)
      next
        case False
        with m4 m100 show ?thesis
          unfolding e a b c by (simp add: days_before_year_def is_leap_def)
      qed
    qed
  qed
qed

lemma upto_eleven: "[1..11::int] = [1, 2, 3, 4, 5, 6, 7, 8, 9, 10, 11]"
  by code_simp

lemma days_before_december: "days_before_month y 12 + 31 = (if is_leap y then 366 else 365)"
  by (simp add: days_before_month_def days_in_month_def upto_eleven)

lemma days_before_month_step:
  "1 < m \<Longrightarrow> days_before_month y m = days_before_month y (m - 1) + days_in_month y (m - 1)"
proof -
  assume "1 < m"
  then have "[1..m - 1] = [1..m - 1 - 1] @ [m - 1]" by (intro upto_rec2) simp
  then show ?thesis by (simp add: days_before_month_def)
qed

lemma days_in_month_bounds: "28 \<le> days_in_month y m \<and> days_in_month y m \<le> 31"
  by (simp add: days_in_month_def)

lemma sub_timedelta_24h_ordinal:
  assumes v: "valid_datetime t" and s: "sub_timedelta_24h t = Inr c"
  shows "valid_datetime c \<and> toordinal c = toordinal t - 1 \<and> hour c = hour t \<and>
         minute c = minute t \<and> second c = second t \<and> microsecond c = microsecond t \<and>
         tzinfo c = tzinfo t"
proof (cases "1 < day t")
  case True
  with s have c: "c = t\<lparr>day := day t - 1\<rparr>" by (simp add: sub_timedelta_24h_def)
  with v True show ?thesis by (simp add: valid_datetime_def toordinal_def)
next
  case d1: False
  with v have day1: "day t = 1" by (simp add: valid_datetime_def)
  show ?thesis
  proof (cases "1 < month t")
    case True
    with s d1 have c: "c = t\<lparr>month := month t - 1,
                             day := days_in_month (year t) (month t - 1)\<rparr>"
      by (simp add: sub_timedelta_24h_def)
    from days_in_month_bounds[of "year t" "month t - 1"] v True c
    have "valid_datetime c" by (simp add: valid_datetime_def)
    moreover from c day1 days_before_month_step[OF True, of "year t"]
    have "toordinal c = toordinal t - 1" by (simp add: toordinal_def)
    ultimately show ?thesis using c by simp
  next
    case m1: False
    with v have month1: "month t = 1" by (simp add: valid_datetime_def)
    from s d1 m1 have y: "1 < year t" and c: "c = t\<lparr>year := year t - 1, month := 12, day := 31\<rparr>"
      by (simp_all add: sub_timedelta_24h_def split: if_splits)
    from v y c have "valid_datetime c" by (simp add: valid_datetime_def days_in_month_def)
    moreover have "toordinal c = toordinal t - 1"
    proof -
      have "toordinal c = days_before_year (year t - 1) + (days_before_month (year t - 1) 12 + 31)"
        using c by (simp add: toordinal_def)
      also have "\<dots> = days_before_year (year t - 1 + 1)"
        by (simp only: days_before_december days_before_year_step)
      also have "\<dots> = toordinal t - 1"
        using day1 month1 by (simp add: toordinal_def days_before_month_def)
      finally show ?thesis .
    qed
    ultimately show ?thesis using c by simp
  qed
qed

lemma sub_timedelta_24h_raises:
  "valid_datetime t \<Longrightarrow> sub_timedelta_24h t = Inl e \<Longrightarrow> toordinal t = 1"
  by (auto simp: sub_timedelta_24h_def valid_datetime_def toordinal_def days_before_year_def
        days_before_month_def split: if_splits)

lemma techcrunch_fetch:
  "fst (fetch_feed sample_parse ''https://techcrunch.com/feed/'' ''TechCrunch'')
     = [launch_entry, stale_entry, undated_entry]"
  by (simp add: sample_parse_def sample_defs norm_defs fetch_defs
        launch_entry_def stale_entry_def undated_entry_def)

text \<open>
  C3. An entry is in \<open>all_entries\<close>, the list that is sorted, exactly when some feed
  yielded it and its date is absent or at or after the cutoff time. For a run of
  \<open>main\<close> the cutoff is the clock reading less 24 hours, every entry of the report is
  one of \<open>all_entries\<close>, and none has a date before the cutoff. The cutoff is the
  same time of day one calendar day before the clock reading.
\<close>

theorem recency_filter:
  "(r \<in> set (fst (collect parse c feeds [] [])) \<longleftrightarrow>
      (\<exists>(u, s)\<in>set feeds. r \<in> set (fst (fetch_feed parse u s))) \<and>
      (date r = None \<or> (\<exists>d. date r = Some d \<and> dt_ge d c))) \<and>
   (\<forall>now items out. main parse now = Inr (items, out) \<longrightarrow>
      (\<exists>c'. sub_timedelta_24h now = Inr c' \<and>
         set items \<subseteq> set (fst (collect parse c' feeds [] [])) \<and>
         (\<forall>x\<in>set items. \<forall>d. date x = Some d \<longrightarrow> dt_ge d c'))) \<and>
   (\<forall>now c'. valid_datetime now \<and> sub_timedelta_24h now = Inr c' \<longrightarrow>
      valid_datetime c' \<and> toordinal c' = toordinal now - 1 \<and> hour c' = hour now \<and>
      minute c' = minute now \<and> second c' = second now \<and> microsecond c' = microsecond now)"
proof (intro conjI allI impI)
  have "is_recent c r \<longleftrightarrow> date r = None \<or> (\<exists>d. date r = Some d \<and> dt_ge d c)"
    by (cases "date r") (simp_all add: is_recent_def)
  then show "r \<in> set (fst (collect parse c feeds [] [])) \<longleftrightarrow>
      (\<exists>(u, s)\<in>set feeds. r \<in> set (fst (fetch_feed parse u s))) \<and>
      (date r = None \<or> (\<exists>d. date r = Some d \<and> dt_ge d c))"
    by (simp add: collect_members)
next
  fix now items out assume "main parse now = Inr (items, out)"
  then obtain c' where c: "sub_timedelta_24h now = Inr c'"
      and i: "items = top_10 (fst (collect parse c' feeds [] []))"
    by (auto simp: main_Inr)
  from i have sub: "set items \<subseteq> set (fst (collect parse c' feeds [] []))"
    using set_top_10 by simp
  have "\<forall>x\<in>set items. \<forall>d. date x = Some d \<longrightarrow> dt_ge d c'"
  proof (intro ballI allI impI)
    fix x d assume "x \<in> set items" "date x = Some d"
    with sub have "is_recent c' x" by (auto simp: collect_members)
    with \<open>date x = Some d\<close> show "dt_ge d c'" by (simp add: is_recent_def)
  qed
  with c sub show "\<exists>c'. sub_timedelta_24h now = Inr c' \<and>
         set items \<subseteq> set (fst (collect parse c' feeds [] [])) \<and>
         (\<forall>x\<in>set items. \<forall>d. date x = Some d \<longrightarrow> dt_ge d c')" by blast
next
  fix now c' assume h: "valid_datetime now \<and> sub_timedelta_24h now = Inr c'"
  then have "valid_datetime c' \<and> toordinal c' = toordinal now - 1 \<and> hour c' = hour now \<and>
         minute c' = minute now \<and> second c' = second now \<and> microsecond c' = microsecond now \<and>
         tzinfo c' = tzinfo now"
    using sub_timedelta_24h_ordinal by blast
  then show "valid_datetime c'" "toordinal c' = toordinal now - 1" "hour c' = hour now"
    "minute c' = minute now" "second c' = second now" "microsecond c' = microsecond now"
    by simp_all
qed

theorem recency_filter_witness:
  "stale_entry \<in> set (fst (fetch_feed sample_parse ''https://techcrunch.com/feed/'' ''TechCrunch'')) \<and>
   stale_entry \<notin> set (fst (collect sample_parse sample_cutoff feeds [] [])) \<and>
   undated_entry \<in> set (fst (collect sample_parse sample_cutoff feeds [] [])) \<and>
   valid_datetime sample_now \<and> sub_timedelta_24h sample_now = Inr sample_cutoff \<and>
   toordinal sample_cutoff = toordinal sample_now - 1"
proof -
  have f: "(''https://techcrunch.com/feed/'', ''TechCrunch'') \<in> set feeds"
    by (simp add: feeds_def)
  have s: "stale_entry
             \<in> set (fst (fetch_feed sample_parse ''https://techcrunch.com/feed/'' ''TechCrunch''))"
    and u: "undated_entry
             \<in> set (fst (fetch_feed sample_parse ''https://techcrunch.com/feed/'' ''TechCrunch''))"
    by (simp_all add: techcrunch_fetch)
  have old: "\<not> (date stale_entry = None \<or>
                (\<exists>d. date stale_entry = Some d \<and> dt_ge d sample_cutoff))"
    by (simp add: stale_entry_def sample_cutoff_def dt_ge_def dt_key_def)
  have nodate: "date undated_entry = None" by (simp add: undated_entry_def)
  from recency_filter [of stale_entry sample_parse sample_cutoff] old
  have a: "stale_entry \<notin> set (fst (collect sample_parse sample_cutoff feeds [] []))" by blast
  from recency_filter [of undated_entry sample_parse sample_cutoff] nodate f u
  have b: "undated_entry \<in> set (fst (collect sample_parse sample_cutoff feeds [] []))" by blast
  have v: "valid_datetime sample_now"
    by (simp add: sample_now_def valid_datetime_def days_in_month_def)
  from recency_filter [of stale_entry sample_parse sample_cutoff] v sub_timedelta_sample
  have c: "toordinal sample_cutoff = toordinal sample_now - 1" by blast
  from s a b c v sub_timedelta_sample show ?thesis by blast
qed

lemma sort_reverse_desc:
  assumes "i < j" "j < length (sort_reverse k xs)"
  shows "k (sort_reverse k xs ! j) \<le> k (sort_reverse k xs ! i)"
proof -
  let ?r = "sort_reverse k xs"
  have "sorted (rev (map k ?r))" by (simp add: sort_reverse_def rev_map)
  then have "\<forall>i j. i \<le> j \<longrightarrow> j < length (map k ?r) \<longrightarrow> map k ?r ! j \<le> map k ?r ! i"
    by (simp only: sorted_rev_iff_nth_mono)
  with assms have "map k ?r ! j \<le> map k ?r ! i" by auto
  with assms show ?thesis by simp
qed

lemma sort_reverse_strict:
  assumes "i < length (sort_reverse k xs)" "j < length (sort_reverse k xs)"
    and "k (sort_reverse k xs ! j) < k (sort_reverse k xs ! i)"
  shows "i < j"
proof (rule ccontr)
  assume "\<not> i < j"
  with assms(3) have "j < i" by (cases "i = j") auto
  from sort_reverse_desc[OF this assms(1)] assms(3) show False by simp
qed

lemma sort_reverse_stable:
  "filter (\<lambda>y. k y = v) (sort_reverse k xs) = filter (\<lambda>y. k y = v) xs"
  by (simp add: sort_reverse_def rev_filter [symmetric] sort_key_stable)


lemma entry_key_dated: "date x = Some d \<Longrightarrow> entry_key x = dt_key d"
  by (simp add: entry_key_def sort_date_def)

lemma entry_key_undated: "date x = None \<Longrightarrow> entry_key x = dt_key datetime_min"
  by (simp add: entry_key_def sort_date_def replace_tzinfo_def dt_key_def)

lemma valid_datetime_min: "valid_datetime d \<Longrightarrow> dt_key datetime_min \<le> dt_key d"
  by (auto simp: valid_datetime_def dt_key_def datetime_min_def)

lemma sort_reverse_undated:
  "filter (\<lambda>y. date y = None) (sort_reverse entry_key xs) = filter (\<lambda>y. date y = None) xs"
proof -
  have "\<And>ys. filter (\<lambda>y. date y = None) ys
          = filter (\<lambda>y. date y = None) (filter (\<lambda>y. entry_key y = dt_key datetime_min) ys)"
    by (auto simp: entry_key_undated intro: filter_cong)
  then show ?thesis by (metis sort_reverse_stable)
qed

lemmas entry_defs = launch_entry_def stale_entry_def undated_entry_def review_entry_def
  patch_entry_def

lemmas sort_defs = sort_reverse_def entry_key_def sort_date_def dt_key_def datetime_min_def
  replace_tzinfo_def


lemma sample_sorted:
  "sort_reverse entry_key [launch_entry, undated_entry, review_entry, patch_entry] = sample_items"
  by (simp add: sort_defs entry_defs sample_items_def)


lemma sample_collect:
  "fst (collect sample_parse sample_cutoff feeds [] [])
     = [launch_entry, undated_entry, review_entry, patch_entry]"
  by (simp add: feeds_def sample_parse_def sample_defs norm_defs fetch_defs entry_defs
        is_recent_def dt_ge_def dt_key_def sample_cutoff_def)


lemma mset_sort_reverse: "mset (sort_reverse k xs) = mset xs"
  by (simp add: sort_reverse_def)

text \<open>The cutoff of a run lies after a given new year when the clock lies a day after it.\<close>

lemma cutoff_after:
  assumes "valid_datetime now" "sub_timedelta_24h now = Inr c"
    and "(y, 1, 2, 0, 0, 0, 0) < dt_key now"
  shows "(y, 1, 1, 0, 0, 0, 0) < dt_key c"
proof (cases "1 < day now")
  case True
  with assms(2) have c: "c = now\<lparr>day := day now - 1\<rparr>" by (simp add: sub_timedelta_24h_def)
  from assms(1,3) True show ?thesis unfolding c
    by (auto simp: dt_key_def valid_datetime_def)
next
  case d1: False
  show ?thesis
  proof (cases "1 < month now")
    case True
    with assms(2) d1 have c: "c = now\<lparr>month := month now - 1,
                             day := days_in_month (year now) (month now - 1)\<rparr>"
      by (simp add: sub_timedelta_24h_def)
    from days_in_month_bounds[of "year now" "month now - 1"] assms(1,3) True show ?thesis
      unfolding c by (auto simp: dt_key_def valid_datetime_def)
  next
    case m1: False
    from assms(2) d1 m1 have y: "1 < year now"
      and c: "c = now\<lparr>year := year now - 1, month := 12, day := 31\<rparr>"
      by (simp_all add: sub_timedelta_24h_def split: if_splits)
    from assms(1,3) d1 m1 show ?thesis unfolding c
      by (auto simp: dt_key_def valid_datetime_def)
  qed
qed

lemma main_retained:
  assumes "main parse now = Inr (items, out)"
  shows "\<exists>c. sub_timedelta_24h now = Inr c \<and>
           items = take 10 (sort_reverse entry_key (fst (collect parse c feeds [] [])))"
  using assms by (auto simp: main_Inr top_10_def)

lemma collect_dated:
  "x \<in> set (fst (collect parse c fs [] [])) \<Longrightarrow> date x = Some d \<Longrightarrow> dt_key c \<le> dt_key d"
  by (auto simp: collect_members is_recent_def dt_ge_def)

text \<open>
  C4 (as amended). In a run of \<open>main\<close> the report is the first ten entries of the list
  of retained entries sorted stably by date, newest first, an entry without date taking the
  earliest possible value as its key. For two entries with dates: the one that comes first
  has a date at or after the other's, and an entry with a strictly later date comes first.
  When the clock reads later than 0001-01-02 00:00, as every clock does, the entries
  without date are at the end, after every entry with a date. Entries of equal key, and
  so the entries without date, keep the order they had before the sort, and the sort only
  permutes the list.
\<close>

theorem sort_newest_first:
  assumes "main parse now = Inr (items, out)"
  shows "\<exists>c xs r. sub_timedelta_24h now = Inr c \<and> xs = fst (collect parse c feeds [] []) \<and>
           r = sort_reverse entry_key xs \<and> items = take 10 r \<and>
           (\<forall>i j a b. i < j \<and> j < length r \<and> date (r ! i) = Some a \<and> date (r ! j) = Some b
              \<longrightarrow> dt_ge a b) \<and>
           (\<forall>i j a b. i < length r \<and> j < length r \<and> date (r ! i) = Some a \<and>
              date (r ! j) = Some b \<and> dt_key b < dt_key a \<longrightarrow> i < j) \<and>
           (valid_datetime now \<and> (1, 1, 2, 0, 0, 0, 0) < dt_key now \<longrightarrow>
              (\<forall>i j a. i < length r \<and> j < length r \<and> date (r ! i) = Some a \<and>
                 date (r ! j) = None \<longrightarrow> i < j)) \<and>
           (\<forall>v. filter (\<lambda>y. entry_key y = v) r = filter (\<lambda>y. entry_key y = v) xs) \<and>
           filter (\<lambda>y. date y = None) r = filter (\<lambda>y. date y = None) xs \<and>
           mset r = mset xs"
proof -
  from main_retained[OF assms] obtain c where c: "sub_timedelta_24h now = Inr c"
    and items: "items = take 10 (sort_reverse entry_key (fst (collect parse c feeds [] [])))"
    by blast
  define xs where "xs = fst (collect parse c feeds [] [])"
  define r where "r = sort_reverse entry_key xs"
  have p1: "\<forall>i j a b. i < j \<and> j < length r \<and> date (r ! i) = Some a \<and> date (r ! j) = Some b
              \<longrightarrow> dt_ge a b"
  proof (intro allI impI)
    fix i j a b
    assume h: "i < j \<and> j < length r \<and> date (r ! i) = Some a \<and> date (r ! j) = Some b"
    then have "entry_key (r ! j) \<le> entry_key (r ! i)"
      unfolding r_def using sort_reverse_desc by blast
    with h show "dt_ge a b" by (simp add: entry_key_dated dt_ge_def)
  qed
  have p2: "\<forall>i j a b. i < length r \<and> j < length r \<and> date (r ! i) = Some a \<and>
              date (r ! j) = Some b \<and> dt_key b < dt_key a \<longrightarrow> i < j"
  proof (intro allI impI)
    fix i j a b
    assume h: "i < length r \<and> j < length r \<and> date (r ! i) = Some a \<and>
              date (r ! j) = Some b \<and> dt_key b < dt_key a"
    then have "entry_key (r ! j) < entry_key (r ! i)" by (simp add: entry_key_dated)
    with h show "i < j" unfolding r_def using sort_reverse_strict by blast
  qed
  have p3: "valid_datetime now \<and> (1, 1, 2, 0, 0, 0, 0) < dt_key now \<longrightarrow>
              (\<forall>i j a. i < length r \<and> j < length r \<and> date (r ! i) = Some a \<and>
                 date (r ! j) = None \<longrightarrow> i < j)"
  proof (intro allI impI)
    fix i j a
    assume clock: "valid_datetime now \<and> (1, 1, 2, 0, 0, 0, 0) < dt_key now"
      and h: "i < length r \<and> j < length r \<and> date (r ! i) = Some a \<and> date (r ! j) = None"
    from clock c have low: "(1, 1, 1, 0, 0, 0, 0) < dt_key c" using cutoff_after by blast
    from h have "r ! i \<in> set r" by simp
    then have "r ! i \<in> set xs" by (simp add: r_def set_sort_reverse)
    with h have "dt_key c \<le> dt_key a" unfolding xs_def using collect_dated by blast
    with low have "(1, 1, 1, 0, 0, 0, 0) < dt_key a" by (rule less_le_trans)
    moreover have "dt_key datetime_min = (1, 1, 1, 0, 0, 0, 0)"
      by (simp add: dt_key_def datetime_min_def)
    ultimately have "dt_key datetime_min < dt_key a" by simp
    with h have "entry_key (r ! j) < entry_key (r ! i)"
      by (simp add: entry_key_dated entry_key_undated)
    with h show "i < j" unfolding r_def using sort_reverse_strict by blast
  qed
  have p4: "\<forall>v. filter (\<lambda>y. entry_key y = v) r = filter (\<lambda>y. entry_key y = v) xs"
    unfolding r_def by (simp add: sort_reverse_stable)
  have p5: "filter (\<lambda>y. date y = None) r = filter (\<lambda>y. date y = None) xs"
    unfolding r_def by (rule sort_reverse_undated)
  have p6: "mset r = mset xs" unfolding r_def by (rule mset_sort_reverse)
  from items have "items = take 10 r" by (simp add: r_def xs_def)
  with c xs_def r_def p1 p2 p3 p4 p5 p6 show ?thesis by blast
qed

lemma sample_main:
  "main sample_parse sample_now
     = Inr (sample_items,
            snd (collect sample_parse sample_cutoff feeds [] []) @ report sample_items)"
  by (simp add: main_Inr sub_timedelta_sample sample_collect top_10_def sample_sorted
        sample_items_def)

theorem sort_newest_first_witness:
  "main sample_parse sample_now
     = Inr (sample_items,
            snd (collect sample_parse sample_cutoff feeds [] []) @ report sample_items) \<and>
   valid_datetime sample_now \<and> (1, 1, 2, 0, 0, 0, 0) < dt_key sample_now \<and>
   sample_items = sort_reverse entry_key [launch_entry, undated_entry, review_entry, patch_entry] \<and>
   date (sample_items ! 0) = date patch_entry \<and> date (sample_items ! 1) = date launch_entry \<and>
   date (sample_items ! 3) = None \<and>
   dt_ge (the (date patch_entry)) (the (date launch_entry)) \<and>
   date (sample_items ! 2) = date review_entry \<and> (2::nat) < 3 \<and>
   filter (\<lambda>y. date y = None) sample_items
     = filter (\<lambda>y. date y = None) [launch_entry, undated_entry, review_entry, patch_entry]"
proof -
  have v: "valid_datetime sample_now \<and> (1, 1, 2, 0, 0, 0, 0) < dt_key sample_now"
    by (simp add: sample_now_def valid_datetime_def days_in_month_def dt_key_def)
  from sort_newest_first [OF sample_main]
  obtain c xs r where c: "sub_timedelta_24h sample_now = Inr c"
    and xs: "xs = fst (collect sample_parse c feeds [] [])"
    and r: "r = sort_reverse entry_key xs"
    and p1: "\<forall>i j a b. i < j \<and> j < length r \<and> date (r ! i) = Some a \<and> date (r ! j) = Some b
              \<longrightarrow> dt_ge a b"
    and p3: "valid_datetime sample_now \<and> (1, 1, 2, 0, 0, 0, 0) < dt_key sample_now \<longrightarrow>
              (\<forall>i j a. i < length r \<and> j < length r \<and> date (r ! i) = Some a \<and>
                 date (r ! j) = None \<longrightarrow> i < j)"
    and p5: "filter (\<lambda>y. date y = None) r = filter (\<lambda>y. date y = None) xs"
    by blast
  from c have "c = sample_cutoff" by (simp add: sub_timedelta_sample)
  with xs have xs': "xs = [launch_entry, undated_entry, review_entry, patch_entry]"
    by (simp add: sample_collect)
  with r have r': "r = sample_items" by (simp add: sample_sorted)
  have d: "(0::nat) < 1 \<and> 1 < length sample_items \<and>
           date (sample_items ! 0) = Some (the (date patch_entry)) \<and>
           date (sample_items ! 1) = Some (the (date launch_entry))"
    by (simp add: sample_items_def entry_defs)
  from p1 d have a: "dt_ge (the (date patch_entry)) (the (date launch_entry))"
    unfolding r' by blast
  have d3: "(2::nat) < length sample_items \<and> 3 < length sample_items \<and>
            date (sample_items ! 2) = Some (the (date review_entry)) \<and>
            date (sample_items ! 3) = None"
    by (simp add: sample_items_def entry_defs)
  from p3 v d3 have b: "(2::nat) < 3" unfolding r' by blast
  from d3 have b': "date (sample_items ! 2) = date review_entry"
    by (simp add: review_entry_def)
  from p5 have e: "filter (\<lambda>y. date y = None) sample_items
     = filter (\<lambda>y. date y = None) [launch_entry, undated_entry, review_entry, patch_entry]"
    unfolding r' xs' .
  have f: "date (sample_items ! 0) = date patch_entry \<and>
     date (sample_items ! 1) = date launch_entry \<and> date (sample_items ! 3) = None"
    by (simp add: sample_items_def entry_defs)
  have g: "sample_items
             = sort_reverse entry_key [launch_entry, undated_entry, review_entry, patch_entry]"
    by (simp add: sample_sorted)
  from sample_main v g f a b b' e show ?thesis by blast
qed

text \<open>
  C4 as stated does not hold: two entries with the same date cannot each come before the
  other. In the sample run the review (position 2) and the launch (position 1) have the
  same date, so the review's date is at or after the launch's, yet it comes after it.
\<close>

theorem sort_order_iff_counterexample:
  "map_sum id fst (main sample_parse sample_now) = Inr sample_items \<and>
   date (sample_items ! 1) = date launch_entry \<and> date (sample_items ! 2) = date review_entry \<and>
   \<not> ((2::nat) < 1 \<longleftrightarrow> dt_ge (the (date review_entry)) (the (date launch_entry)))"
proof -
  have "main sample_parse sample_now
          = Inr (sample_items, snd (collect sample_parse sample_cutoff feeds [] []) @ report sample_items)"
    by (simp add: main_Inr sub_timedelta_sample sample_collect top_10_def sample_sorted
          sample_items_def)
  then have "map_sum id fst (main sample_parse sample_now) = Inr sample_items" by simp
  moreover have "date (sample_items ! 1) = date launch_entry \<and>
     date (sample_items ! 2) = date review_entry"
    by (simp add: sample_items_def)
  moreover have "\<not> ((2::nat) < 1 \<longleftrightarrow> dt_ge (the (date review_entry)) (the (date launch_entry)))"
    by (simp add: entry_defs dt_ge_def dt_key_def)
  ultimately show ?thesis by blast
qed



section \<open>Properties of the report\<close>

lemma concat_blocks_nth:
  "(\<forall>x\<in>set xs. length (f x) = 4) \<Longrightarrow> i < length xs \<Longrightarrow> k < 4 \<Longrightarrow>
     concat (map f xs) ! (4 * i + k) = f (xs ! i) ! k"
proof (induction xs arbitrary: i)
  case Nil
  then show ?case by simp
next
  case (Cons x xs)
  show ?case
  proof (cases i)
    case 0
    with Cons.prems show ?thesis by (simp add: nth_append)
  next
    case (Suc n)
    with Cons.prems have "concat (map f xs) ! (4 * n + k) = f (xs ! n) ! k"
      by (intro Cons.IH) auto
    moreover have "4 * i + k = length (f x) + (4 * n + k)" using Suc Cons.prems by simp
    ultimately show ?thesis using Suc by (simp only: list.map concat.simps nth_append_length_plus nth_Cons_Suc)
  qed
qed

lemma concat_blocks_length:
  "(\<forall>x\<in>set xs. length (f x) = 4) \<Longrightarrow> length (concat (map f xs)) = 4 * length xs"
  by (induction xs) auto

lemma length_item_lines: "length (item_lines p) = 4"
  by (cases p) (simp add: item_lines_def)

lemma zip_numbered: "i < length items \<Longrightarrow> zip [1 ..< Suc (length items)] items ! i = (Suc i, items ! i)"
  by (simp add: nth_zip del: upt_Suc)

lemma report_item:
  assumes "i < length items" "k < 4"
  shows "report items ! (2 + (4 * i + k)) = item_lines (Suc i, items ! i) ! k"
proof -
  let ?ps = "zip [1 ..< Suc (length items)] items"
  have len: "i < length ?ps" using assms(1) by simp
  have "report items ! (2 + (4 * i + k)) = concat (map item_lines ?ps) ! (4 * i + k)"
    unfolding report_def by (simp del: upt_Suc)
  also have "\<dots> = item_lines (?ps ! i) ! k"
    using len assms(2) by (intro concat_blocks_nth) (simp_all add: length_item_lines)
  finally show ?thesis using assms(1) by (simp only: zip_numbered)
qed

lemma length_report: "length (report items) = 2 + 4 * length items"
  unfolding report_def by (simp add: concat_blocks_length length_item_lines del: upt_Suc)

lemma digit_char_digit: "digit_char n \<in> set ''0123456789''"
proof -
  have "n mod 10 < length ''0123456789''" by simp
  then show ?thesis unfolding digit_char_def by (rule nth_mem)
qed

lemma digit_value_digit_char: "digit_value (digit_char n) = n mod 10"
proof -
  have "n mod 10 = 0 \<or> n mod 10 = 1 \<or> n mod 10 = 2 \<or> n mod 10 = 3 \<or> n mod 10 = 4 \<or>
        n mod 10 = 5 \<or> n mod 10 = 6 \<or> n mod 10 = 7 \<or> n mod 10 = 8 \<or> n mod 10 = 9"
    by presburger
  then show ?thesis
    by (elim disjE) (simp_all add: digit_char_def digit_value_def)
qed

lemma decimal_value_snoc: "decimal_value (s @ [c]) = 10 * decimal_value s + digit_value c"
  by (simp add: decimal_value_def)

lemma decimal_value_str_nat: "decimal_value (str_nat n) = n"
proof (induction n rule: str_nat.induct)
  case (1 n)
  show ?case
  proof (cases "n < 10")
    case True
    then show ?thesis
      by (subst str_nat.simps) (simp add: decimal_value_def digit_value_digit_char)
  next
    case False
    with 1 have "decimal_value (str_nat (n div 10)) = n div 10" by simp
    with False show ?thesis
      by (subst str_nat.simps) (simp add: decimal_value_snoc digit_value_digit_char)
  qed
qed

lemma decimal_value_zeros: "decimal_value (replicate k (CHR ''0'') @ s) = decimal_value s"
proof (induction k)
  case 0
  then show ?case by simp
next
  case (Suc k)
  have "foldl (\<lambda>a c. 10 * a + digit_value c) 0 (CHR ''0'' # replicate k (CHR ''0'') @ s)
        = foldl (\<lambda>a c. 10 * a + digit_value c) 0 (replicate k (CHR ''0'') @ s)"
    by (simp add: digit_value_def)
  with Suc show ?case by (simp add: decimal_value_def)
qed

lemma decimal_value_zero_pad: "decimal_value (zero_pad w n) = n"
  by (simp add: zero_pad_def decimal_value_zeros decimal_value_str_nat)

lemma length_str_nat: "0 < k \<Longrightarrow> n < 10 ^ k \<Longrightarrow> length (str_nat n) \<le> k"
proof (induction n arbitrary: k rule: str_nat.induct)
  case (1 n)
  show ?case
  proof (cases "n < 10")
    case True
    with 1(2) show ?thesis by (subst str_nat.simps) simp
  next
    case False
    with 1(3) have "1 < k" by (cases "k = 1") (use 1(2) in auto)
    then obtain k' where k: "k = Suc k'" "0 < k'" by (cases k) auto
    with 1(3) have "n div 10 < 10 ^ k'" by (simp add: less_mult_imp_div_less mult.commute)
    with 1(1)[OF False k(2)] have "length (str_nat (n div 10)) \<le> k'" by simp
    with False k show ?thesis by (subst str_nat.simps) simp
  qed
qed

lemma length_zero_pad: "0 < w \<Longrightarrow> n < 10 ^ w \<Longrightarrow> length (zero_pad w n) = w"
  using length_str_nat[of w n] by (simp add: zero_pad_def)

lemma set_str_nat: "set (str_nat n) \<subseteq> set ''0123456789''"
proof (induction n rule: str_nat.induct)
  case (1 n)
  show ?case
  proof (cases "n < 10")
    case True
    then show ?thesis using digit_char_digit[of n] by (subst str_nat.simps) simp
  next
    case False
    with 1 have "set (str_nat (n div 10)) \<subseteq> set ''0123456789''" by simp
    with False show ?thesis using digit_char_digit[of n] by (subst str_nat.simps) simp
  qed
qed

lemma set_zero_pad: "set (zero_pad w n) \<subseteq> set ''0123456789''"
proof -
  have "set (replicate (w - length (str_nat n)) (CHR ''0'')) \<subseteq> set ''0123456789''"
    by (auto simp: set_replicate_conv_if)
  with set_str_nat[of n] show ?thesis unfolding zero_pad_def by (simp only: set_append Un_subset_iff)
qed

lemma length_str_nat_lower: "10 ^ k \<le> n \<Longrightarrow> k < length (str_nat n)"
proof (induction n arbitrary: k rule: str_nat.induct)
  case (1 n)
  show ?case
  proof (cases "n < 10")
    case True
    have "k = 0"
    proof (rule ccontr)
      assume "k \<noteq> 0"
      then have "(10::nat) ^ 1 \<le> 10 ^ k" by (intro power_increasing) simp_all
      with 1(2) True show False by simp
    qed
    with True show ?thesis by (subst str_nat.simps) simp
  next
    case False
    show ?thesis
    proof (cases k)
      case 0
      with False show ?thesis by (subst str_nat.simps) simp
    next
      case (Suc k')
      with 1(2) have "10 ^ k' \<le> n div 10" by simp
      with 1(1)[OF False] have "k' < length (str_nat (n div 10))" by simp
      with False Suc show ?thesis by (subst str_nat.simps) simp
    qed
  qed
qed

lemma length_str_nat_year: "1000 \<le> n \<Longrightarrow> n \<le> 9999 \<Longrightarrow> length (str_nat n) = 4"
proof -
  assume a: "1000 \<le> n" and b: "n \<le> 9999"
  from a have "10 ^ 3 \<le> n" by simp
  then have "3 < length (str_nat n)" by (rule length_str_nat_lower)
  moreover from b have "n < 10 ^ 4" by simp
  then have "length (str_nat n) \<le> 4" by (intro length_str_nat) simp_all
  ultimately show ?thesis by simp
qed

lemma strftime_format:
  assumes "valid_datetime d" and "1000 \<le> year d"
  shows "\<exists>Y M D h m. strftime d = Y @ ''-'' @ M @ ''-'' @ D @ '' '' @ h @ '':'' @ m @ '' UTC'' \<and>
           length Y = 4 \<and> length M = 2 \<and> length D = 2 \<and> length h = 2 \<and> length m = 2 \<and>
           set (Y @ M @ D @ h @ m) \<subseteq> set ''0123456789'' \<and>
           int (decimal_value Y) = year d \<and> int (decimal_value M) = month d \<and>
           int (decimal_value D) = day d \<and> int (decimal_value h) = hour d \<and>
           int (decimal_value m) = minute d"
proof -
  let ?Y = "str_nat (nat (year d))" and ?M = "zero_pad 2 (nat (month d))"
  let ?D = "zero_pad 2 (nat (day d))" and ?h = "zero_pad 2 (nat (hour d))"
  let ?m = "zero_pad 2 (nat (minute d))"
  have dm: "days_in_month (year d) (month d) \<le> 31" by (simp add: days_in_month_def)
  from assms(1) dm have b: "nat (month d) < 10 ^ 2" "nat (day d) < 10 ^ 2"
      "nat (hour d) < 10 ^ 2" "nat (minute d) < 10 ^ 2"
    by (auto simp: valid_datetime_def)
  from assms have "1000 \<le> nat (year d)" "nat (year d) \<le> 9999"
    by (auto simp: valid_datetime_def)
  then have ly: "length ?Y = 4" by (rule length_str_nat_year)
  have l: "length ?M = 2" "length ?D = 2" "length ?h = 2" "length ?m = 2"
    using b by (simp_all add: length_zero_pad)
  have s: "set (?Y @ ?M @ ?D @ ?h @ ?m) \<subseteq> set ''0123456789''"
    using set_str_nat[of "nat (year d)"] set_zero_pad[of 2 "nat (month d)"]
      set_zero_pad[of 2 "nat (day d)"] set_zero_pad[of 2 "nat (hour d)"]
      set_zero_pad[of 2 "nat (minute d)"]
    by (simp only: set_append Un_subset_iff)
  have v: "int (decimal_value ?Y) = year d" "int (decimal_value ?M) = month d"
      "int (decimal_value ?D) = day d" "int (decimal_value ?h) = hour d"
      "int (decimal_value ?m) = minute d"
    using assms(1) by (simp_all add: decimal_value_zero_pad decimal_value_str_nat valid_datetime_def)
  have e: "strftime d = ?Y @ ''-'' @ ?M @ ''-'' @ ?D @ '' '' @ ?h @ '':'' @ ?m @ '' UTC''"
    by (simp add: strftime_def)
  from e ly l s v show ?thesis by blast
qed

lemma normalize_entry_valid_date:
  "normalize_entry s e = Inr r \<Longrightarrow> date r = Some d \<Longrightarrow> valid_datetime d"
  using get_pub_date_Some by (auto simp: normalize_entry_Inr)

lemma main_dates_valid:
  assumes "main parse now = Inr (items, out)" "x \<in> set items" "date x = Some d"
  shows "valid_datetime d"
proof -
  from assms(1) obtain c where "items = top_10 (fst (collect parse c feeds [] []))"
    by (auto simp: main_Inr)
  with assms(2) have "x \<in> set (fst (collect parse c feeds [] []))" using set_top_10 by blast
  then obtain u s where "x \<in> set (fst (fetch_feed parse u s))" by (auto simp: collect_members)
  from fetch_feed_members[OF this] obtain e where "normalize_entry s e = Inr x" by blast
  from normalize_entry_valid_date[OF this assms(3)] show ?thesis .
qed

lemma main_dates_four_digits:
  assumes "main parse now = Inr (items, out)" "valid_datetime now"
    and "(1000, 1, 2, 0, 0, 0, 0) < dt_key now" and "x \<in> set items" "date x = Some d"
  shows "1000 \<le> year d"
proof -
  from assms(1) obtain c where c: "sub_timedelta_24h now = Inr c"
    and i: "items = top_10 (fst (collect parse c feeds [] []))"
    by (auto simp: main_Inr)
  from i assms(4) have "x \<in> set (fst (collect parse c feeds [] []))" using set_top_10 by blast
  with assms(5) have le: "dt_key c \<le> dt_key d" using collect_dated by blast
  from assms(2,3) c have "(1000, 1, 1, 0, 0, 0, 0) < dt_key c" using cutoff_after by blast
  from this le have "(1000, 1, 1, 0, 0, 0, 0) < dt_key d" by (rule less_le_trans)
  then show ?thesis by (auto simp: dt_key_def)
qed

text \<open>
  C9. The report is a total function of the final list. It is a header line with the
  number of entries, a rule of 80 equals signs, and for the entry at position \<open>i\<close>
  (counted from 0) four lines: its number \<open>i + 1\<close> and headline, its source, its date,
  and an empty line. The date is the marker Unknown when the entry has none, and otherwise
  the text of \<open>strftime\<close>, which for a date from the year 1000 on is
  YYYY-MM-DD HH:MM UTC, digits only, reading back as the year, month, day, hour and
  minute. The output of \<open>main\<close> ends with this report, every date in it is a proper
  calendar value, and when the clock reads later than 1000-01-02 00:00, as every clock
  does, every date in it is of the year 1000 or later and so printed in that form.
\<close>

theorem report_layout:
  "length (report items) = 2 + 4 * length items \<and>
   report items ! 0
     = ''Top '' @ str_nat (length items) @ '' Technology News Headlines'' @ [CHR 0x0A] \<and>
   decimal_value (str_nat (length items)) = length items \<and>
   report items ! 1 = replicate 80 (CHR ''='') \<and>
   (\<forall>i<length items.
      report items ! (2 + 4 * i) = str_nat (Suc i) @ ''. '' @ headline (items ! i) \<and>
      decimal_value (str_nat (Suc i)) = Suc i \<and>
      report items ! (3 + 4 * i) = ''   Source: '' @ source (items ! i) \<and>
      report items ! (4 + 4 * i)
        = ''   Date: '' @ (case date (items ! i) of None \<Rightarrow> ''Unknown'' | Some d \<Rightarrow> strftime d) \<and>
      report items ! (5 + 4 * i) = []) \<and>
   (\<forall>d. valid_datetime d \<and> 1000 \<le> year d \<longrightarrow>
      (\<exists>Y M D h m. strftime d = Y @ ''-'' @ M @ ''-'' @ D @ '' '' @ h @ '':'' @ m @ '' UTC'' \<and>
         length Y = 4 \<and> length M = 2 \<and> length D = 2 \<and> length h = 2 \<and> length m = 2 \<and>
         set (Y @ M @ D @ h @ m) \<subseteq> set ''0123456789'' \<and>
         int (decimal_value Y) = year d \<and> int (decimal_value M) = month d \<and>
         int (decimal_value D) = day d \<and> int (decimal_value h) = hour d \<and>
         int (decimal_value m) = minute d)) \<and>
   (\<forall>parse now its out. main parse now = Inr (its, out) \<longrightarrow>
      (\<exists>printed. out = printed @ report its) \<and>
      (\<forall>x\<in>set its. \<forall>d. date x = Some d \<longrightarrow> valid_datetime d) \<and>
      (valid_datetime now \<and> (1000, 1, 2, 0, 0, 0, 0) < dt_key now \<longrightarrow>
         (\<forall>x\<in>set its. \<forall>d. date x = Some d \<longrightarrow> 1000 \<le> year d)))"
proof (intro conjI allI impI ballI)
  show "length (report items) = 2 + 4 * length items" by (rule length_report)
  show "report items ! 0
     = ''Top '' @ str_nat (length items) @ '' Technology News Headlines'' @ [CHR 0x0A]"
    by (simp add: report_def del: upt_Suc)
  show "decimal_value (str_nat (length items)) = length items" by (rule decimal_value_str_nat)
  show "report items ! 1 = replicate 80 (CHR ''='')"
    by (simp add: report_def del: upt_Suc)
next
  fix i assume i: "i < length items"
  have i0: "2 + 4 * i = 2 + (4 * i + 0)" and i1: "3 + 4 * i = 2 + (4 * i + 1)"
    and i2: "4 + 4 * i = 2 + (4 * i + 2)" and i3: "5 + 4 * i = 2 + (4 * i + 3)"
    by simp_all
  show "report items ! (2 + 4 * i) = str_nat (Suc i) @ ''. '' @ headline (items ! i)"
    unfolding i0 by (subst report_item) (simp_all add: i item_lines_def)
  show "decimal_value (str_nat (Suc i)) = Suc i" by (rule decimal_value_str_nat)
  show "report items ! (3 + 4 * i) = ''   Source: '' @ source (items ! i)"
    unfolding i1 by (subst report_item) (simp_all add: i item_lines_def)
  show "report items ! (4 + 4 * i)
        = ''   Date: '' @ (case date (items ! i) of None \<Rightarrow> ''Unknown'' | Some d \<Rightarrow> strftime d)"
    unfolding i2
    by (subst report_item) (simp_all add: i item_lines_def date_str_def split: option.split)
  show "report items ! (5 + 4 * i) = []"
    unfolding i3 by (subst report_item) (simp_all add: i item_lines_def)
next
  fix d assume "valid_datetime d \<and> 1000 \<le> year d"
  then show "\<exists>Y M D h m. strftime d = Y @ ''-'' @ M @ ''-'' @ D @ '' '' @ h @ '':'' @ m @ '' UTC'' \<and>
         length Y = 4 \<and> length M = 2 \<and> length D = 2 \<and> length h = 2 \<and> length m = 2 \<and>
         set (Y @ M @ D @ h @ m) \<subseteq> set ''0123456789'' \<and>
         int (decimal_value Y) = year d \<and> int (decimal_value M) = month d \<and>
         int (decimal_value D) = day d \<and> int (decimal_value h) = hour d \<and>
         int (decimal_value m) = minute d"
    using strftime_format by blast
next
  fix parse now its out assume "main parse now = Inr (its, out)"
  then show "\<exists>printed. out = printed @ report its" by (auto simp: main_Inr)
next
  fix parse now its out x d
  assume "main parse now = Inr (its, out)" "x \<in> set its" "date x = Some d"
  then show "valid_datetime d" by (rule main_dates_valid)
next
  fix parse now its out x d
  assume "main parse now = Inr (its, out)"
    and "valid_datetime now \<and> (1000, 1, 2, 0, 0, 0, 0) < dt_key now"
    and "x \<in> set its" "date x = Some d"
  then show "1000 \<le> year d" using main_dates_four_digits by blast
qed

lemma str_nat_samples:
  "str_nat 1 = ''1''" "str_nat 4 = ''4''" "str_nat 2024 = ''2024''" "str_nat 3 = ''3''"
  "str_nat 15 = ''15''" "str_nat 18 = ''18''" "str_nat 5 = ''5''"
  by (simp_all add: str_nat.simps digit_char_def)

theorem report_layout_witness:
  "length (report sample_items) = 18 \<and>
   report sample_items ! 0 = ''Top 4 Technology News Headlines'' @ [CHR 0x0A] \<and>
   report sample_items ! 2 = ''1. Patch notes'' \<and>
   report sample_items ! 3 = ''   Source: Ars Technica'' \<and>
   report sample_items ! 4 = ''   Date: 2024-03-15 18:05 UTC'' \<and>
   report sample_items ! 16 = ''   Date: Unknown'' \<and>
   valid_datetime (the (date patch_entry)) \<and> 1000 \<le> year (the (date patch_entry)) \<and>
   length (strftime (the (date patch_entry))) = 20 \<and>
   main sample_parse sample_now
     = Inr (sample_items,
            snd (collect sample_parse sample_cutoff feeds [] []) @ report sample_items) \<and>
   valid_datetime sample_now \<and> (1000, 1, 2, 0, 0, 0, 0) < dt_key sample_now \<and>
   launch_entry \<in> set sample_items \<and> 1000 \<le> year (the (date launch_entry))"
proof -
  have l: "length sample_items = 4" by (simp add: sample_items_def)
  have z: "(0::nat) < length sample_items" "(3::nat) < length sample_items" by (simp_all add: l)
  note r = report_layout [of sample_items]
  from r have a: "length (report sample_items) = 18" by (simp add: l)
  from r have b: "report sample_items ! 0 = ''Top 4 Technology News Headlines'' @ [CHR 0x0A]"
    by (simp add: l str_nat_samples)
  from r z(1) have c: "report sample_items ! (2 + 4 * 0)
         = str_nat (Suc 0) @ ''. '' @ headline (sample_items ! 0) \<and>
       report sample_items ! (3 + 4 * 0) = ''   Source: '' @ source (sample_items ! 0) \<and>
       report sample_items ! (4 + 4 * 0)
        = ''   Date: '' @ (case date (sample_items ! 0) of None \<Rightarrow> ''Unknown''
                           | Some d \<Rightarrow> strftime d)"
    by blast
  from r z(2) have d: "report sample_items ! (4 + 4 * 3)
        = ''   Date: '' @ (case date (sample_items ! 3) of None \<Rightarrow> ''Unknown''
                           | Some d \<Rightarrow> strftime d)"
    by blast
  have v: "valid_datetime (the (date patch_entry))"
    by (simp add: patch_entry_def valid_datetime_def days_in_month_def)
  from c have c': "report sample_items ! 2 = ''1. Patch notes'' \<and>
     report sample_items ! 3 = ''   Source: Ars Technica'' \<and>
     report sample_items ! 4 = ''   Date: 2024-03-15 18:05 UTC''"
    using str_nat_samples
    by (simp add: sample_items_def patch_entry_def strftime_def zero_pad_def)
  from d have d': "report sample_items ! 16 = ''   Date: Unknown''"
    by (simp add: sample_items_def undated_entry_def)
  have y: "1000 \<le> year (the (date patch_entry))" by (simp add: patch_entry_def)
  from r v y obtain Y M D h m
    where "strftime (the (date patch_entry))
             = Y @ ''-'' @ M @ ''-'' @ D @ '' '' @ h @ '':'' @ m @ '' UTC''"
      and "length Y = 4" "length M = 2" "length D = 2" "length h = 2" "length m = 2"
    by blast
  then have e: "length (strftime (the (date patch_entry))) = 20" by simp
  have k: "valid_datetime sample_now \<and> (1000, 1, 2, 0, 0, 0, 0) < dt_key sample_now"
    by (simp add: sample_now_def valid_datetime_def days_in_month_def dt_key_def)
  have m: "launch_entry \<in> set sample_items"
    and n: "date launch_entry = Some (the (date launch_entry))"
    by (simp_all add: sample_items_def launch_entry_def)
  from r sample_main k
  have "\<forall>x\<in>set sample_items. \<forall>d. date x = Some d \<longrightarrow> 1000 \<le> year d" by blast
  with m n have f: "1000 \<le> year (the (date launch_entry))" by blast
  from a b c' d' v y e sample_main k m f show ?thesis by blast
qed

end
